theory Spec2Isabelle
  imports Main "HOL-Library.AList" "HOL-Library.Sublist"
begin

section \<open>Values of the JavaScript runtime\<close>

text \<open>
  A string is the list of its code units, each below 256.

  A JavaScript number is a double. \<open>Num i\<close> is the integer \<open>i\<close>, of magnitude at most
  \<open>2^53\<close>, which a double holds exactly. \<open>Inexact t\<close> is any other double that is not
  \<open>NaN\<close> (a fraction, a magnitude above \<open>2^53\<close>, an infinity), named by the text \<open>t\<close>
  that \<open>String\<close> and a template literal give it; it is never zero.
\<close>

datatype number = NaN | Num int | Inexact string

definition is_digit :: "char \<Rightarrow> bool" where
  "is_digit c = (48 \<le> (of_char c :: nat) \<and> (of_char c :: nat) \<le> 57)"

definition digit_val :: "char \<Rightarrow> nat" where
  "digit_val c = of_char c - 48"

definition decimal :: "string \<Rightarrow> nat" where
  "decimal ds = foldl (\<lambda>n c. 10 * n + digit_val c) 0 ds"

text \<open>The text of a number in a template literal or by \<open>String(n)\<close>.\<close>

definition digit_char :: "nat \<Rightarrow> char" where
  "digit_char d = ''0123456789'' ! d"

fun show_nat :: "nat \<Rightarrow> string" where
  "show_nat n = (if n < 10 then [digit_char n] else show_nat (n div 10) @ [digit_char (n mod 10)])"

declare show_nat.simps [simp del]

definition show_int :: "int \<Rightarrow> string" where
  "show_int i = (if i < 0 then CHR ''-'' # show_nat (nat (- i)) else show_nat (nat i))"

definition show_number :: "number \<Rightarrow> string" where
  "show_number n = (case n of NaN \<Rightarrow> ''NaN'' | Num i \<Rightarrow> show_int i | Inexact t \<Rightarrow> t)"

section \<open>Errors\<close>

text \<open>
  Every \<open>throw\<close> of \<open>cli.ts\<close> is an \<open>Error\<close> with a message; the constructors name the
  message, in the taxonomy of the specification:
  \<^item> \<open>UnknownOptionError arg\<close>: \<open>Unknown option <arg>\<close>;
  \<^item> \<open>RestrictedOptionError\<close>: \<open>--password can only be set in the config file or passed in via $PASSWORD\<close>;
  \<^item> \<open>MissingValueError key\<close>: \<open>--<key> requires a value\<close>;
  \<^item> \<open>InvalidNumberError key\<close>: \<open>--<key> must be a number\<close>;
  \<^item> \<open>InvalidEnumValueError key\<close>: \<open>--<key> valid values: [...]\<close>;
  \<^item> \<open>ErrorReading file e\<close>: the message of \<open>e\<close> prefixed with \<open>error reading <file>: \<close>;
  \<^item> \<open>InvalidConfigError\<close>: \<open>invalid config: <config>\<close>;
  \<^item> \<open>TypeError\<close>: raised by the runtime (\<open>new URL\<close> on an invalid URL,
    \<open>Object.values(undefined)\<close>);
  \<^item> \<open>YAMLException\<close>: raised by \<open>yaml.safeLoad\<close> on text that is not YAML;
  \<^item> \<open>IOError code\<close>: a failed file-system call with its error code.
\<close>

datatype error =
    UnknownOptionError string
  | RestrictedOptionError
  | MissingValueError string
  | InvalidNumberError string
  | InvalidEnumValueError string
  | ErrorReading string error
  | InvalidConfigError
  | TypeError
  | YAMLException
  | IOError string

section \<open>The environment of the process\<close>

text \<open>A parsed YAML document, as \<open>yaml.safeLoad\<close> returns it. A mapping lists its
  entries in the order of \<open>Object.entries\<close>.\<close>

datatype yaml =
    YUndefined
  | YNull
  | YBool bool
  | YNum number
  | YStr string
  | YSeq "yaml list"
  | YMap "(string \<times> yaml) list"

text \<open>A path of the file system holds a file with its content, a directory, or something a
  read fails on with an error code.\<close>

datatype node = File string | Directory | Unreadable string

type_synonym fs = "string \<Rightarrow> node option"

text \<open>
  What \<open>cli.ts\<close> imports and does not define: Node's \<open>path\<close>, \<open>os\<close> and \<open>URL\<close>,
  \<open>fs.copy\<close>, the \<open>AuthType\<close> enumeration of \<open>./http\<close>, \<open>paths\<close>, \<open>canConnect\<close> and
  \<open>generatePassword\<close> of \<open>./util\<close>, and \<open>yaml.safeLoad\<close>. They are parameters of the
  model. \<open>host_parser\<close> is the host parser of the URL standard and \<open>safeLoad\<close> the YAML
  loader (\<open>None\<close> is failure); \<open>canConnect\<close> is the outcome of the liveness probe of a
  socket path; \<open>generatePassword\<close> is the password the generator returns;
  \<open>double_text i\<close> is the text of the double that the runtime makes of an integer \<open>i\<close>
  of magnitude above \<open>2^53\<close>, where a double rounds.
\<close>

record sys =
  path_resolve :: "string \<Rightarrow> string"
  path_join :: "string list \<Rightarrow> string"
  host_parser :: "string \<Rightarrow> string option"
  AuthType_values :: "string list"
  paths_data :: string
  paths_config :: string
  os_platform :: string
  os_homedir :: string
  os_tmpdir :: string
  fs_copy :: "string \<Rightarrow> string \<Rightarrow> fs \<Rightarrow> error + fs"
  safeLoad :: "string \<Rightarrow> yaml option"
  generatePassword :: string
  canConnect :: "string \<Rightarrow> bool"
  double_text :: "int \<Rightarrow> string"

text \<open>The white space \<open>parseInt\<close> skips, among the code units below 256: TAB, LF, VT,
  FF, CR, SP and the no-break space.\<close>

definition is_space :: "char \<Rightarrow> bool" where
  "is_space c = ((of_char c :: nat) \<in> {9, 10, 11, 12, 13, 32, 160})"

text \<open>
  \<open>parseInt(s, 10)\<close>: skip leading white space, read an optional sign, then the longest
  run of decimal digits; no digit there gives \<open>NaN\<close>. Whatever follows the digits is
  ignored. With the radix given as 10 no \<open>0x\<close> prefix is recognised. The result is the
  double of the integer read: the integer itself up to \<open>2^53\<close>, a rounded one beyond.
\<close>

definition parseInt :: "sys \<Rightarrow> string \<Rightarrow> number" where
  "parseInt e s =
     (let t = dropWhile is_space s;
          neg = (t \<noteq> [] \<and> hd t = CHR ''-'');
          u = (if t \<noteq> [] \<and> (hd t = CHR ''-'' \<or> hd t = CHR ''+'') then tl t else t);
          ds = takeWhile is_digit u;
          i = (if neg then - int (decimal ds) else int (decimal ds))
      in if ds = [] then NaN
         else if decimal ds \<le> 2 ^ 53 then Num i
         else Inexact (double_text e i))"

section \<open>The option schema\<close>

datatype option_type =
    T_boolean
  | T_string
  | T_string_list
  | T_number
  | T_OptionalString
  | T_AuthType
  | T_LogLevel

text \<open>An entry of \<open>options\<close>. The description and the beta mark only feed the help text.\<close>

record opt =
  type :: option_type
  short :: "string option"
  path :: bool

definition mk :: "option_type \<Rightarrow> opt" where
  "mk t = \<lparr>type = t, short = None, path = False\<rparr>"

definition mk_short :: "option_type \<Rightarrow> string \<Rightarrow> opt" where
  "mk_short t s = \<lparr>type = t, short = Some s, path = False\<rparr>"

definition mk_path :: "option_type \<Rightarrow> opt" where
  "mk_path t = \<lparr>type = t, short = None, path = True\<rparr>"

definition options :: "(string \<times> opt) list" where
  "options =
    [(''auth'', mk T_AuthType),
     (''password'', mk T_string),
     (''cert'', mk_path T_OptionalString),
     (''cert-host'', mk T_string),
     (''cert-key'', mk_path T_string),
     (''disable-telemetry'', mk T_boolean),
     (''help'', mk_short T_boolean ''h''),
     (''json'', mk T_boolean),
     (''open'', mk T_boolean),
     (''bind-addr'', mk T_string),
     (''config'', mk T_string),
     (''host'', mk T_string),
     (''port'', mk T_number),
     (''socket'', mk_path T_string),
     (''version'', mk_short T_boolean ''v''),
     (''_'', mk T_string_list),
     (''user-data-dir'', mk_path T_string),
     (''extensions-dir'', mk_path T_string),
     (''builtin-extensions-dir'', mk_path T_string),
     (''extra-extensions-dir'', mk_path T_string_list),
     (''extra-builtin-extensions-dir'', mk_path T_string_list),
     (''list-extensions'', mk T_boolean),
     (''force'', mk T_boolean),
     (''install-extension'', mk T_string_list),
     (''enable-proposed-api'', mk T_string_list),
     (''uninstall-extension'', mk T_string_list),
     (''show-versions'', mk T_boolean),
     (''proxy-domain'', mk T_string_list),
     (''new-window'', mk_short T_boolean ''n''),
     (''reuse-window'', mk_short T_boolean ''r''),
     (''locale'', mk T_string),
     (''log'', mk T_LogLevel),
     (''verbose'', mk_short T_boolean ''vvv''),
     (''link'', mk T_OptionalString)]"

definition LogLevel_values :: "string list" where
  "LogLevel_values = [''trace'', ''debug'', ''info'', ''warn'', ''error'']"

text \<open>
  \<open>options[key]\<close> is a property read. A key that is not in the table still finds the
  members that every object inherits from \<open>Object.prototype\<close>: they are truthy and have
  no \<open>type\<close>, \<open>short\<close> or \<open>path\<close>.
\<close>

definition Object_prototype :: "string list" where
  "Object_prototype =
    [''constructor'', ''__proto__'', ''hasOwnProperty'', ''isPrototypeOf'',
     ''propertyIsEnumerable'', ''toLocaleString'', ''toString'', ''valueOf'',
     ''__defineGetter__'', ''__defineSetter__'', ''__lookupGetter__'', ''__lookupSetter__'']"

datatype property = Own opt | Inherited

definition options_get :: "string \<Rightarrow> property option" where
  "options_get key =
     (case map_of options key of
        Some option \<Rightarrow> Some (Own option)
      | None \<Rightarrow> if key \<in> set Object_prototype then Some Inherited else None)"

section \<open>Configuration records\<close>

text \<open>
  The values of the fields of \<open>Args\<close>: booleans, strings (also the enumerations),
  string arrays, numbers and \<open>OptionalString\<close> objects, whose \<open>value\<close> may be undefined.
  An \<open>Args\<close> object is the list of its own properties in insertion order.
\<close>

datatype val =
    VBool bool
  | VStr string
  | VList "string list"
  | VNum number
  | VOpt "string option"

type_synonym args = "(string \<times> val) list"

text \<open>Truthiness of a property read: undefined, \<open>false\<close>, \<open>""\<close>, \<open>0\<close> and \<open>NaN\<close> are falsy.\<close>

definition truthy :: "val option \<Rightarrow> bool" where
  "truthy v =
     (case v of
        None \<Rightarrow> False
      | Some (VBool b) \<Rightarrow> b
      | Some (VStr s) \<Rightarrow> s \<noteq> []
      | Some (VNum n) \<Rightarrow> n \<noteq> NaN \<and> n \<noteq> Num 0
      | Some (VList xs) \<Rightarrow> True
      | Some (VOpt x) \<Rightarrow> True)"

text \<open>Truthiness of a value that is a string or undefined.\<close>

definition nonempty :: "string option \<Rightarrow> bool" where
  "nonempty v = (case v of None \<Rightarrow> False | Some s \<Rightarrow> s \<noteq> [])"

definition get_string :: "args \<Rightarrow> string \<Rightarrow> string option" where
  "get_string a k = (case map_of a k of Some (VStr s) \<Rightarrow> Some s | _ \<Rightarrow> None)"

definition get_number :: "args \<Rightarrow> string \<Rightarrow> number option" where
  "get_number a k = (case map_of a k of Some (VNum n) \<Rightarrow> Some n | _ \<Rightarrow> None)"

definition get_list :: "args \<Rightarrow> string \<Rightarrow> string list" where
  "get_list a k = (case map_of a k of Some (VList xs) \<Rightarrow> xs | _ \<Rightarrow> [])"

section \<open>The parser\<close>

text \<open>\<open>error(msg)\<close>: inside \<open>parse\<close>, a message is prefixed when the tokens come from a
  config file.\<close>

definition error :: "string option \<Rightarrow> error \<Rightarrow> error" where
  "error configFile msg =
     (case configFile of
        None \<Rightarrow> msg
      | Some f \<Rightarrow> if f \<noteq> [] then ErrorReading f msg else msg)"

text \<open>
  \<open>arg.replace(/^--/, "").split("=", 2)\<close>: the limit 2 keeps the first two pieces and
  drops the rest, so the value ends before a second \<open>=\<close>. \<open>split[1]\<close> is undefined when
  there is no \<open>=\<close>.
\<close>

definition split_key :: "string \<Rightarrow> string" where
  "split_key arg = takeWhile (\<lambda>c. c \<noteq> CHR ''='') (drop 2 arg)"

definition split_value :: "string \<Rightarrow> string option" where
  "split_value arg =
     (if CHR ''='' \<in> set (drop 2 arg)
      then Some (takeWhile (\<lambda>c. c \<noteq> CHR ''='') (tl (dropWhile (\<lambda>c. c \<noteq> CHR ''='') (drop 2 arg))))
      else None)"

text \<open>\<open>Object.entries(options).find(([, v]) => v.short === short)\<close>, its key.\<close>

definition find_short :: "string \<Rightarrow> string option" where
  "find_short s = map_option fst (find (\<lambda>(k, v). short v = Some s) options)"

definition option_type :: "property \<Rightarrow> option_type option" where
  "option_type p = (case p of Own option \<Rightarrow> Some (type option) | Inherited \<Rightarrow> None)"

definition option_path :: "property \<Rightarrow> bool" where
  "option_path p = (case p of Own option \<Rightarrow> path option | Inherited \<Rightarrow> False)"

text \<open>\<open>Object.values(option.type)\<close> in the default branch of the switch: the values of an
  enumeration, the characters of a string, a \<open>TypeError\<close> on undefined.\<close>

definition Object_values :: "sys \<Rightarrow> option_type option \<Rightarrow> error + string list" where
  "Object_values e t =
     (case t of
        None \<Rightarrow> Inl TypeError
      | Some T_AuthType \<Rightarrow> Inr (AuthType_values e)
      | Some T_LogLevel \<Rightarrow> Inr LogLevel_values
      | Some T_boolean \<Rightarrow> Inr (map (\<lambda>c. [c]) ''boolean'')
      | Some T_string \<Rightarrow> Inr (map (\<lambda>c. [c]) ''string'')
      | Some T_string_list \<Rightarrow> Inr (map (\<lambda>c. [c]) ''string[]'')
      | Some T_number \<Rightarrow> Inr (map (\<lambda>c. [c]) ''number'')
      | Some T_OptionalString \<Rightarrow> Inr [])"

text \<open>The \<open>switch (option.type)\<close> that stores a value; the error is the message before
  \<open>error\<close> prefixes it.\<close>

definition store :: "sys \<Rightarrow> string option \<Rightarrow> property \<Rightarrow> string \<Rightarrow> string \<Rightarrow> args \<Rightarrow> error + args" where
  "store e configFile option key v a =
     (case option_type option of
        Some T_string \<Rightarrow> Inr (AList.update key (VStr v) a)
      | Some T_string_list \<Rightarrow>
          Inr (AList.update key (VList ((if truthy (map_of a key) then get_list a key else []) @ [v])) a)
      | Some T_number \<Rightarrow>
          (if parseInt e v = NaN then Inl (error configFile (InvalidNumberError key))
           else Inr (AList.update key (VNum (parseInt e v)) a))
      | Some T_OptionalString \<Rightarrow> Inr (AList.update key (VOpt (Some v)) a)
      | t \<Rightarrow>
          (case Object_values e t of
             Inl err \<Rightarrow> Inl err
           | Inr vs \<Rightarrow>
               if v \<notin> set vs then Inl (error configFile (InvalidEnumValueError key))
               else Inr (AList.update key (VStr v) a)))"

text \<open>
  The body of \<open>if (!ended && arg.startsWith("-"))\<close> for the token \<open>arg\<close> followed by the
  tokens \<open>rest\<close>. It returns the record and whether \<open>++i\<close> consumed the next token.
\<close>

definition next_is_value :: "string list \<Rightarrow> bool" where
  "next_is_value rest = (rest \<noteq> [] \<and> hd rest \<noteq> [] \<and> \<not> prefix ''-'' (hd rest))"

definition parse_option :: "sys \<Rightarrow> string option \<Rightarrow> args \<Rightarrow> string \<Rightarrow> string list \<Rightarrow> error + (args \<times> bool)" where
  "parse_option e configFile a arg rest =
     (let key = (if prefix ''--'' arg then Some (split_key arg) else find_short (drop 1 arg));
          value = (if prefix ''--'' arg then split_value arg else None)
      in case key of
           None \<Rightarrow> Inl (error configFile (UnknownOptionError arg))
         | Some k \<Rightarrow>
            (case (if k = [] then None else options_get k) of
               None \<Rightarrow> Inl (error configFile (UnknownOptionError arg))
             | Some option \<Rightarrow>
                 if k = ''password'' \<and> \<not> nonempty configFile then Inl RestrictedOptionError
                 else if option_type option = Some T_boolean
                 then Inr (AList.update k (VBool True) a, False)
                 else
                   (let consumed = (value = None \<and> next_is_value rest);
                        value = (if value = None then (if consumed then Some (hd rest) else None) else value)
                    in if \<not> nonempty value \<and> option_type option = Some T_OptionalString
                       then Inr (AList.update k (VOpt value) a, consumed)
                       else if \<not> nonempty value
                       then Inl (error configFile (MissingValueError k))
                       else if option_type option = Some T_OptionalString \<and> value = Some ''false''
                       then Inr (a, consumed)
                       else
                         (case store e configFile option k
                                 (if option_path option then path_resolve e (the value) else the value) a of
                            Inl err \<Rightarrow> Inl err
                          | Inr a' \<Rightarrow> Inr (a', consumed)))))"

text \<open>The \<open>for\<close> loop of \<open>parse\<close> over the tokens that remain, with the record built so
  far and the flag \<open>ended\<close>.\<close>

fun parse_loop :: "sys \<Rightarrow> string option \<Rightarrow> bool \<Rightarrow> args \<Rightarrow> string list \<Rightarrow> error + args" where
  "parse_loop e configFile ended a [] = Inr a"
| "parse_loop e configFile ended a (arg # rest) =
     (if \<not> ended \<and> arg = ''--'' then parse_loop e configFile True a rest
      else if \<not> ended \<and> prefix ''-'' arg then
        (case parse_option e configFile a arg rest of
           Inl err \<Rightarrow> Inl err
         | Inr (a', consumed) \<Rightarrow> parse_loop e configFile ended a' (if consumed then tl rest else rest))
      else parse_loop e configFile ended (AList.update ''_'' (VList (get_list a ''_'' @ [arg])) a) rest)"

text \<open>\<open>parse(argv, opts)\<close>; \<open>configFile\<close> is \<open>opts?.configFile\<close>.\<close>

definition parse :: "sys \<Rightarrow> string list \<Rightarrow> string option \<Rightarrow> error + args" where
  "parse e argv configFile = parse_loop e configFile False [(''_'', VList [])] argv"

section \<open>The state of the process\<close>

datatype level = Trace | Debug | Info | Warning | Error

text \<open>
  What the functions read and write outside their arguments: the environment variables,
  the file system, the level of the logger, and the objects on the heap, an \<open>Args\<close>
  object being addressed by its index in \<open>objs\<close>.
\<close>

record world =
  process_env :: "string \<Rightarrow> string option"
  files :: fs
  logger_level :: level
  objs :: "args list"

section \<open>The bind address\<close>

text \<open>
  \<open>new URL(`http://${bindAddr}`)\<close>, as the URL standard parses an input with the special
  scheme \<open>http\<close>: trailing C0 controls and spaces are stripped, tabs and newlines removed;
  after the scheme every further slash or backslash is skipped; the authority runs to the
  first of \<open>/ ? # \\<close>; what precedes its last \<open>@\<close> is the credentials; the host runs to
  the first \<open>:\<close> outside brackets and must not be empty; the port is made of digits, at
  most 65535, and the default port 80 is dropped. The result is \<open>(u.hostname, u.port)\<close>,
  \<open>None\<close> where the constructor throws.
\<close>

definition c0_or_space :: "char \<Rightarrow> bool" where
  "c0_or_space c = ((of_char c :: nat) \<le> 32)"

definition tab_or_newline :: "char \<Rightarrow> bool" where
  "tab_or_newline c = ((of_char c :: nat) \<in> {9, 10, 13})"

definition is_slash :: "char \<Rightarrow> bool" where
  "is_slash c = (c = CHR ''/'' \<or> c = CHR 0x5C)"

definition ends_authority :: "char \<Rightarrow> bool" where
  "ends_authority c = (c = CHR ''/'' \<or> c = CHR ''?'' \<or> c = CHR ''#'' \<or> c = CHR 0x5C)"

fun scan_host :: "bool \<Rightarrow> string \<Rightarrow> string \<Rightarrow> string \<times> string option" where
  "scan_host insideBrackets buffer [] = (buffer, None)"
| "scan_host insideBrackets buffer (c # cs) =
     (if c = CHR '':'' \<and> \<not> insideBrackets then (buffer, Some cs)
      else scan_host (if c = CHR ''['' then True else if c = CHR '']'' then False else insideBrackets)
             (buffer @ [c]) cs)"

text \<open>The host buffer and, after a \<open>:\<close>, the text of the port.\<close>

definition url_authority :: "string \<Rightarrow> string \<times> string option" where
  "url_authority s =
     (let input = filter (\<lambda>c. \<not> tab_or_newline c) (rev (dropWhile c0_or_space (rev s)));
          authority = takeWhile (\<lambda>c. \<not> ends_authority c) (dropWhile is_slash input);
          hostport = rev (takeWhile (\<lambda>c. c \<noteq> CHR ''@'') (rev authority))
      in scan_host False [] hostport)"

definition http_URL :: "sys \<Rightarrow> string \<Rightarrow> (string \<times> string) option" where
  "http_URL e s =
     (case url_authority s of
        (buffer, p) \<Rightarrow>
          if buffer = [] then None
          else
            (case host_parser e buffer of
               None \<Rightarrow> None
             | Some hostname \<Rightarrow>
                 (case p of
                    None \<Rightarrow> Some (hostname, [])
                  | Some ds \<Rightarrow>
                      if \<not> list_all is_digit ds then None
                      else if ds = [] then Some (hostname, [])
                      else if decimal ds > 65535 then None
                      else Some (hostname, if decimal ds = 80 then [] else show_nat (decimal ds)))))"

definition parseBindAddr :: "sys \<Rightarrow> string \<Rightarrow> error + (string \<times> number)" where
  "parseBindAddr e bindAddr =
     (case http_URL e bindAddr of
        None \<Rightarrow> Inl TypeError
      | Some (hostname, p) \<Rightarrow> Inr (hostname, if p \<noteq> [] then parseInt e p else Num 80))"

record Addr =
  host :: string
  port :: number

text \<open>The ports the data model of the specification gives an \<open>Addr\<close>: the integers from 0
  to 65535.\<close>

definition valid_port :: "number \<Rightarrow> bool" where
  "valid_port p = (case p of NaN \<Rightarrow> False | Num i \<Rightarrow> 0 \<le> i \<and> i \<le> 65535 | Inexact t \<Rightarrow> False)"

definition bindAddrFromArgs :: "sys \<Rightarrow> world \<Rightarrow> Addr \<Rightarrow> args \<Rightarrow> error + Addr" where
  "bindAddrFromArgs e w addr a =
     (case (if nonempty (get_string a ''bind-addr'')
            then (case parseBindAddr e (the (get_string a ''bind-addr'')) of
                    Inl err \<Rightarrow> Inl err
                  | Inr hp \<Rightarrow> Inr (Some hp))
            else Inr None) of
        Inl err \<Rightarrow> Inl err
      | Inr parsed \<Rightarrow>
          (let addr = (case parsed of None \<Rightarrow> addr | Some (h, p) \<Rightarrow> addr\<lparr>host := h, port := p\<rparr>);
               addr = (if nonempty (get_string a ''host'')
                       then addr\<lparr>host := the (get_string a ''host'')\<rparr> else addr);
               addr = (if nonempty (process_env w ''PORT'')
                       then addr\<lparr>port := parseInt e (the (process_env w ''PORT''))\<rparr> else addr);
               addr = (case get_number a ''port'' of None \<Rightarrow> addr | Some n \<Rightarrow> addr\<lparr>port := n\<rparr>)
           in Inr addr))"

definition bindAddrFromAllSources :: "sys \<Rightarrow> world \<Rightarrow> args \<Rightarrow> args \<Rightarrow> error + (string \<times> number)" where
  "bindAddrFromAllSources e w cliArgs configArgs =
     (case bindAddrFromArgs e w \<lparr>host = ''localhost'', port = Num 8080\<rparr> configArgs of
        Inl err \<Rightarrow> Inl err
      | Inr addr \<Rightarrow>
          (case bindAddrFromArgs e w addr cliArgs of
             Inl err \<Rightarrow> Inl err
           | Inr addr \<Rightarrow> Inr (host addr, port addr)))"

section \<open>The config file\<close>

definition pathExists :: "world \<Rightarrow> string \<Rightarrow> bool" where
  "pathExists w p = (files w p \<noteq> None)"

definition readFile :: "world \<Rightarrow> string \<Rightarrow> error + string" where
  "readFile w p =
     (case files w p of
        None \<Rightarrow> Inl (IOError ''ENOENT'')
      | Some (File content) \<Rightarrow> Inr content
      | Some Directory \<Rightarrow> Inl (IOError ''EISDIR'')
      | Some (Unreadable code) \<Rightarrow> Inl (IOError code))"











section \<open>Defaults\<close>

definition copyOldMacOSDataDir :: "sys \<Rightarrow> world \<Rightarrow> (error + unit) \<times> world" where
  "copyOldMacOSDataDir e w =
     (if os_platform e \<noteq> ''darwin'' then (Inr (), w)
      else if pathExists w (paths_data e) then (Inr (), w)
      else
        (let oldDataDir = path_join e [os_homedir e, ''Library/Application Support'', ''code-server'']
         in if pathExists w oldDataDir
            then (case fs_copy e oldDataDir (paths_data e) (files w) of
                    Inl err \<Rightarrow> (Inl err, w)
                  | Inr f \<Rightarrow> (Inr (), w\<lparr>files := f\<rparr>))
            else (Inr (), w)))"

text \<open>Reading and writing a property of the object at an address.\<close>

definition get_field :: "world \<Rightarrow> nat \<Rightarrow> string \<Rightarrow> val option" where
  "get_field w r k = map_of (objs w ! r) k"

definition set_field :: "nat \<Rightarrow> string \<Rightarrow> val \<Rightarrow> world \<Rightarrow> world" where
  "set_field r k v w = w\<lparr>objs := (objs w)[r := AList.update k v (objs w ! r)]\<rparr>"

definition level_of :: "string \<Rightarrow> level option" where
  "level_of l =
     (if l = ''trace'' then Some Trace
      else if l = ''debug'' then Some Debug
      else if l = ''info'' then Some Info
      else if l = ''warn'' then Some Warning
      else if l = ''error'' then Some Error
      else None)"

text \<open>
  \<open>setDefaults(args)\<close> for the object at the address \<open>r\<close>: \<open>{ ...args }\<close> allocates a new
  object with the same properties, and every later assignment is to the new object. The
  result is the address of the new object and the state left.
\<close>

definition setDefaults :: "sys \<Rightarrow> world \<Rightarrow> nat \<Rightarrow> (error + nat) \<times> world" where
  "setDefaults e w r =
     (let a = length (objs w);
          w = w\<lparr>objs := objs w @ [objs w ! r]\<rparr>
      in case (if \<not> truthy (get_field w a ''user-data-dir'')
               then (case copyOldMacOSDataDir e w of
                       (Inl err, w) \<Rightarrow> (Inl err, w)
                     | (Inr u, w) \<Rightarrow> (Inr u, set_field a ''user-data-dir'' (VStr (paths_data e)) w))
               else (Inr (), w)) of
           (Inl err, w) \<Rightarrow> (Inl err, w)
         | (Inr u, w) \<Rightarrow>
            (let w = (if \<not> truthy (get_field w a ''extensions-dir'')
                      then set_field a ''extensions-dir''
                             (VStr (path_join e [case get_field w a ''user-data-dir'' of
                                                   Some (VStr d) \<Rightarrow> d | _ \<Rightarrow> [], ''extensions''])) w
                      else w);
                 w = (if truthy (get_field w a ''verbose'') then set_field a ''log'' (VStr ''trace'') w
                      else if \<not> truthy (get_field w a ''log'')
                              \<and> nonempty (process_env w ''LOG_LEVEL'')
                              \<and> the (process_env w ''LOG_LEVEL'') \<in> set LogLevel_values
                      then set_field a ''log'' (VStr (the (process_env w ''LOG_LEVEL''))) w
                      else w);
                 w = (case get_field w a ''log'' of
                        Some (VStr l) \<Rightarrow>
                          if l \<noteq> [] then w\<lparr>process_env := (process_env w)(''LOG_LEVEL'' \<mapsto> l)\<rparr> else w
                      | _ \<Rightarrow> w);
                 w = (case get_field w a ''log'' of
                        Some (VStr l) \<Rightarrow>
                          (case level_of l of
                             None \<Rightarrow> w
                           | Some lv \<Rightarrow> set_field a ''verbose'' (VBool (lv = Trace)) (w\<lparr>logger_level := lv\<rparr>))
                      | _ \<Rightarrow> w)
             in (Inr a, w)))"

section \<open>An existing instance\<close>

definition readSocketPath :: "sys \<Rightarrow> world \<Rightarrow> error + string option" where
  "readSocketPath e w =
     (case readFile w (path_join e [os_tmpdir e, ''vscode-ipc'']) of
        Inr content \<Rightarrow> Inr (Some content)
      | Inl err \<Rightarrow> if err \<noteq> IOError ''ENOENT'' then Inl err else Inr None)"

text \<open>
  \<open>shouldOpenInExistingInstance(args)\<close> returns what the promise settles with and the
  socket paths that \<open>canConnect\<close> probed, in order.
\<close>

definition shouldOpenInExistingInstance :: "sys \<Rightarrow> world \<Rightarrow> args \<Rightarrow> (error + string option) \<times> string list" where
  "shouldOpenInExistingInstance e w a =
     (if nonempty (process_env w ''VSCODE_IPC_HOOK_CLI'')
      then (Inr (process_env w ''VSCODE_IPC_HOOK_CLI''), [])
      else
        (let openInFlagCount =
               foldl (\<lambda>prev cur. if truthy (map_of a cur) then prev + 1 else prev) (0::nat)
                 [''reuse-window'', ''new-window'']
         in if openInFlagCount > 0 then (readSocketPath e w, [])
            else if length a = 1 \<and> length (get_list a ''_'') > 0 then
              (case readSocketPath e w of
                 Inl err \<Rightarrow> (Inl err, [])
               | Inr socketPath \<Rightarrow>
                   if nonempty socketPath
                   then (if canConnect e (the socketPath) then Inr socketPath else Inr None,
                         [the socketPath])
                   else (Inr None, []))
            else (Inr None, [])))"

section \<open>Re-serialization\<close>

text \<open>
  The re-serialization the specification tests the parser with, following its words: one
  token \<open>--key=value\<close> for each stored scalar and for each element of a list, a bare
  \<open>--key\<close> for a boolean and for an \<open>OptionalString\<close> that is present without a payload,
  and the positional arguments after \<open>--\<close>.
\<close>

definition serialize_entry :: "string \<times> val \<Rightarrow> string list" where
  "serialize_entry kv =
     (case kv of
        (k, VBool b) \<Rightarrow> (if b then [''--'' @ k] else [])
      | (k, VStr s) \<Rightarrow> [''--'' @ k @ ''='' @ s]
      | (k, VList xs) \<Rightarrow> map (\<lambda>x. ''--'' @ k @ ''='' @ x) xs
      | (k, VNum n) \<Rightarrow> [''--'' @ k @ ''='' @ show_number n]
      | (k, VOpt None) \<Rightarrow> [''--'' @ k]
      | (k, VOpt (Some s)) \<Rightarrow> [''--'' @ k @ ''='' @ s])"

definition serialize :: "args \<Rightarrow> string list" where
  "serialize a =
     concat (map serialize_entry (filter (\<lambda>kv. fst kv \<noteq> ''_'') a)) @ ''--'' # get_list a ''_''"

text \<open>A decimal integer with an optional sign, and the integer it denotes.\<close>

definition is_numeric :: "string \<Rightarrow> bool" where
  "is_numeric s =
     (let u = (if s \<noteq> [] \<and> (hd s = CHR ''-'' \<or> hd s = CHR ''+'') then tl s else s)
      in u \<noteq> [] \<and> list_all is_digit u)"

definition numeric_value :: "string \<Rightarrow> int" where
  "numeric_value s =
     (if s \<noteq> [] \<and> hd s = CHR ''-'' then - int (decimal (tl s))
      else if s \<noteq> [] \<and> hd s = CHR ''+'' then int (decimal (tl s))
      else int (decimal s))"

section \<open>A sample environment\<close>

text \<open>
  An instance of the parameters and of the state, to run the model on concrete inputs:
  POSIX paths resolved against \<open>/home/coder\<close>, a host parser that accepts lower-case
  domain names and dotted quads as they are, the two authentication types
  \<open>password\<close> and \<open>none\<close>, a YAML loader that knows four texts, the text of an
  infinity for every integer that a double rounds, no environment variable, an empty
  file system.
\<close>

definition sample_sys :: sys where
  "sample_sys =
     \<lparr>path_resolve = (\<lambda>p. if prefix ''/'' p then p else ''/home/coder/'' @ p),
      path_join = (\<lambda>ps. foldr (\<lambda>p q. if q = [] then p else p @ ''/'' @ q) ps []),
      host_parser = (\<lambda>h. if list_all (\<lambda>c. c \<in> set ''abcdefghijklmnopqrstuvwxyz0123456789.-'') h
                          then Some h else None),
      AuthType_values = [''password'', ''none''],
      paths_data = ''/home/coder/.local/share/code-server'',
      paths_config = ''/home/coder/.config/code-server'',
      os_platform = ''linux'',
      os_homedir = ''/home/coder'',
      os_tmpdir = ''/tmp'',
      fs_copy = (\<lambda>src dest f. Inr (f(dest := f src))),
      safeLoad = map_of
        [([], YUndefined),
         (''42'', YNum (Num 42)),
         (''help: false'', YMap [(''help'', YBool False)]),
         (''port: 8080'', YMap [(''port'', YNum (Num 8080))])],
      generatePassword = ''0123456789abcdef01234567'',
      canConnect = (\<lambda>s. False),
      double_text = (\<lambda>i. if i < 0 then ''-Infinity'' else ''Infinity'')\<rparr>"

definition sample_world :: world where
  "sample_world =
     \<lparr>process_env = (\<lambda>k. None), files = (\<lambda>p. None), logger_level = Info, objs = []\<rparr>"

section \<open>Invariants\<close>

text \<open>
  \<open>kept xs a w\<close>: the heap of \<open>w\<close> begins with the objects \<open>xs\<close>, unchanged, and the
  object allocated after them has every property of \<open>a\<close>.
\<close>

definition kept :: "args list \<Rightarrow> args \<Rightarrow> world \<Rightarrow> bool" where
  "kept xs a w =
     (length xs < length (objs w) \<and> take (length xs) (objs w) = xs \<and>
      (\<forall>k. map_of a k \<noteq> None \<longrightarrow> map_of (objs w ! length xs) k \<noteq> None))"

text \<open>A string in which \<open>parseInt\<close> finds a number: after white space and an optional sign
  comes a digit.\<close>

definition starts_with_integer :: "string \<Rightarrow> bool" where
  "starts_with_integer s =
     (let t = dropWhile is_space s;
          u = (if t \<noteq> [] \<and> (hd t = CHR ''-'' \<or> hd t = CHR ''+'') then tl t else t)
      in u \<noteq> [] \<and> is_digit (hd u))"




section \<open>Numbers and their text\<close>

lemma digit_cases:
  "d < 10 \<Longrightarrow> d = 0 \<or> d = 1 \<or> d = 2 \<or> d = 3 \<or> d = 4 \<or> d = 5 \<or> d = 6 \<or> d = 7 \<or> d = 8 \<or> d = (9::nat)"
  by arith

lemma digit_char_props:
  "d < 10 \<Longrightarrow> is_digit (digit_char d) \<and> digit_val (digit_char d) = d \<and> digit_char d \<noteq> CHR ''=''"
  using digit_cases[of d] by (auto simp: digit_char_def is_digit_def digit_val_def)

lemma show_nat_small: "n < 10 \<Longrightarrow> show_nat n = [digit_char n]"
  by (subst show_nat.simps) simp

lemma show_nat_big: "\<not> n < 10 \<Longrightarrow> show_nat n = show_nat (n div 10) @ [digit_char (n mod 10)]"
  by (subst show_nat.simps) simp

lemma show_nat_digits: "list_all is_digit (show_nat n) \<and> show_nat n \<noteq> []"
proof (induction n rule: show_nat.induct)
  case (1 n)
  show ?case
  proof (cases "n < 10")
    case True
    then show ?thesis using digit_char_props[of n] by (simp add: show_nat_small)
  next
    case False
    then show ?thesis using 1 digit_char_props[of "n mod 10"] by (simp add: show_nat_big)
  qed
qed

lemma decimal_snoc: "decimal (ds @ [c]) = 10 * decimal ds + digit_val c"
  by (simp add: decimal_def)

lemma decimal_show_nat: "decimal (show_nat n) = n"
proof (induction n rule: show_nat.induct)
  case (1 n)
  show ?case
  proof (cases "n < 10")
    case True
    then show ?thesis using digit_char_props[of n] by (simp add: show_nat_small decimal_def)
  next
    case False
    then show ?thesis using 1 digit_char_props[of "n mod 10"] by (simp add: show_nat_big decimal_snoc)
  qed
qed

lemma is_digit_not_space: "is_digit c \<Longrightarrow> \<not> is_space c"
  by (auto simp: is_digit_def is_space_def)

lemma is_digit_not_sign: "is_digit c \<Longrightarrow> c \<noteq> CHR ''-'' \<and> c \<noteq> CHR ''+''"
  by (auto simp: is_digit_def)

lemma parseInt_digits:
  assumes "list_all is_digit ds" "ds \<noteq> []" "decimal ds \<le> 2 ^ 53"
  shows "parseInt e ds = Num (int (decimal ds))"
proof -
  have c: "is_digit (hd ds)" using assms by (cases ds) auto
  have dw: "dropWhile is_space ds = ds" using assms(2) is_digit_not_space[OF c] by (cases ds) auto
  have tw: "takeWhile is_digit ds = ds" using assms(1) by (simp add: list_all_iff)
  show ?thesis
    unfolding parseInt_def dw Let_def using is_digit_not_sign[OF c] assms(2,3) by (simp add: tw)
qed

lemma parseInt_show_nat: "n \<le> 2 ^ 53 \<Longrightarrow> parseInt e (show_nat n) = Num (int n)"
  using parseInt_digits[of "show_nat n" e] show_nat_digits[of n] by (simp add: decimal_show_nat)

text \<open>The rules that evaluate the functions on numbers and on URLs at a literal.\<close>

lemmas eval_num =
  show_nat_small show_nat_big digit_char_def decimal_def digit_val_def parseInt_def is_space_def
  is_digit_def show_int_def show_number_def

lemmas eval_url =
  url_authority_def c0_or_space_def tab_or_newline_def is_slash_def ends_authority_def
  http_URL_def parseBindAddr_def

lemmas eval_addr =
  bindAddrFromAllSources_def bindAddrFromArgs_def get_string_def get_number_def nonempty_def

lemmas eval_parse =
  parse_def parse_option_def split_key_def split_value_def find_short_def options_get_def options_def
  mk_def mk_short_def mk_path_def option_type_def option_path_def store_def Object_values_def
  next_is_value_def error_def nonempty_def truthy_def get_list_def Object_prototype_def
  LogLevel_values_def Let_def

section \<open>Properties of the bind address\<close>

lemma http_URL_port:
  assumes "http_URL e s = Some (h, p)"
  shows "p = [] \<or> (\<exists>n. p = show_nat n \<and> n \<le> 65535)"
  using assms unfolding http_URL_def
  by (auto split: prod.splits option.splits if_splits)

lemma parseBindAddr_port:
  assumes "parseBindAddr e s = Inr (h, p)"
  shows "valid_port p"
proof -
  obtain q where u: "http_URL e s = Some (h, q)" and p: "p = (if q \<noteq> [] then parseInt e q else Num 80)"
    using assms unfolding parseBindAddr_def by (auto split: option.splits prod.splits)
  have "parseInt e (show_nat n) = Num (int n)" if "n \<le> 65535" for n
    using that by (intro parseInt_show_nat) simp
  with http_URL_port[OF u] show ?thesis
    using p by (auto simp: valid_port_def)
qed

lemma scan_host_no_colon: "CHR '':'' \<notin> set cs \<Longrightarrow> snd (scan_host b buf cs) = None"
  by (induction cs arbitrary: b buf) auto

lemma url_authority_no_colon:
  assumes "CHR '':'' \<notin> set s"
  shows "snd (url_authority s) = None"
proof -
  have sub: "\<And>P xs. set (takeWhile P xs) \<subseteq> set xs" by (meson set_takeWhileD subsetI)
  have sub2: "\<And>P xs. set (dropWhile P xs) \<subseteq> set xs" by (meson set_dropWhileD subsetI)
  let ?input = "filter (\<lambda>c. \<not> tab_or_newline c) (rev (dropWhile c0_or_space (rev s)))"
  have "set ?input \<subseteq> set s" using sub2[of c0_or_space "rev s"] by auto
  then have "set (rev (takeWhile (\<lambda>c. c \<noteq> CHR ''@'')
                    (rev (takeWhile (\<lambda>c. \<not> ends_authority c) (dropWhile is_slash ?input))))) \<subseteq> set s"
    using sub sub2 by (metis (no_types, lifting) set_rev subset_trans)
  then show ?thesis unfolding url_authority_def Let_def using assms
    by (intro scan_host_no_colon) auto
qed

text \<open>
  C7. A bind address without a port component gets the port 80, not 8080. When the string
  has no colon, or more generally when the URL parser finds no port after the host, every
  result of \<open>parseBindAddr\<close> has the port 80, and there is a result as soon as the host
  is not empty and the host parser accepts it. In particular \<open>parseBindAddr("example.com")\<close>
  is \<open>("example.com", 80)\<close> when the host parser returns \<open>example.com\<close> as it is.
\<close>

theorem parseBindAddr_default_port:
  "((CHR '':'' \<notin> set s \<or> snd (url_authority s) = None) \<longrightarrow>
      (\<forall>h p. parseBindAddr e s = Inr (h, p) \<longrightarrow> p = Num 80) \<and>
      (\<forall>h. fst (url_authority s) \<noteq> [] \<and> host_parser e (fst (url_authority s)) = Some h \<longrightarrow>
           parseBindAddr e s = Inr (h, Num 80))) \<and>
   (host_parser e ''example.com'' = Some ''example.com'' \<longrightarrow>
      parseBindAddr e ''example.com'' = Inr (''example.com'', Num 80))"
proof -
  have a: "snd (url_authority s) = None \<Longrightarrow> parseBindAddr e s = Inr (h, p) \<Longrightarrow> p = Num 80" for h p
    unfolding parseBindAddr_def http_URL_def
    by (auto split: prod.splits option.splits if_splits)
  have b: "snd (url_authority s) = None \<Longrightarrow> fst (url_authority s) \<noteq> [] \<Longrightarrow>
           host_parser e (fst (url_authority s)) = Some h \<Longrightarrow> parseBindAddr e s = Inr (h, Num 80)" for s h
    unfolding parseBindAddr_def http_URL_def
    by (auto split: prod.splits option.splits if_splits)
  have c: "url_authority ''example.com'' = (''example.com'', None)"
    by (simp add: url_authority_def c0_or_space_def tab_or_newline_def is_slash_def ends_authority_def)
  have d: "host_parser e ''example.com'' = Some ''example.com'' \<Longrightarrow>
      parseBindAddr e ''example.com'' = Inr (''example.com'', Num 80)"
    using b[of "''example.com''"] unfolding c by simp
  show ?thesis using a b d url_authority_no_colon[of s] by blast
qed

theorem parseBindAddr_default_port_witness:
  "CHR '':'' \<notin> set ''example.com'' \<and>
   host_parser sample_sys ''example.com'' = Some ''example.com'' \<and>
   parseBindAddr sample_sys ''example.com'' = Inr (''example.com'', Num 80)"
proof -
  have h: "host_parser sample_sys ''example.com'' = Some ''example.com''"
    by (simp add: sample_sys_def)
  have "parseBindAddr sample_sys ''example.com'' = Inr (''example.com'', Num 80)"
    using parseBindAddr_default_port[of "''example.com''" sample_sys] h by blast
  then show ?thesis using h by simp
qed

text \<open>What one application of \<open>bindAddrFromArgs\<close> returns, field by field.\<close>

lemma bindAddrFromArgs_eq:
  "bindAddrFromArgs e w addr a =
     (if nonempty (get_string a ''bind-addr'') \<and> http_URL e (the (get_string a ''bind-addr'')) = None
      then Inl TypeError
      else Inr \<lparr>host = (if nonempty (get_string a ''host'') then the (get_string a ''host'')
                        else if nonempty (get_string a ''bind-addr'')
                        then fst (the (http_URL e (the (get_string a ''bind-addr''))))
                        else host addr),
                port = (case get_number a ''port'' of
                          Some n \<Rightarrow> n
                        | None \<Rightarrow>
                            if nonempty (process_env w ''PORT'')
                            then parseInt e (the (process_env w ''PORT''))
                            else if nonempty (get_string a ''bind-addr'')
                            then snd (projr (parseBindAddr e (the (get_string a ''bind-addr''))))
                            else port addr)\<rparr>)"
  unfolding bindAddrFromArgs_def parseBindAddr_def
  by (auto simp: Let_def split: option.splits prod.splits)

lemma bindAddrFromArgs_valid:
  assumes "bindAddrFromArgs e w addr a = Inr addr'"
    and "valid_port (port addr)"
    and "\<forall>n. get_number a ''port'' = Some n \<longrightarrow> valid_port n"
    and "\<forall>s. process_env w ''PORT'' = Some s \<and> s \<noteq> [] \<longrightarrow> valid_port (parseInt e s)"
  shows "valid_port (port addr')"
  using assms parseBindAddr_port[of e "the (get_string a ''bind-addr'')"] unfolding bindAddrFromArgs_def
  by (auto simp: Let_def nonempty_def split: sum.splits option.splits if_splits prod.splits)

text \<open>
  C1, as amended. When \<open>PORT\<close> is set to a non-empty value, bind-address resolution
  throws exactly when a non-empty \<open>bind-addr\<close> of one of the two records is not a URL
  authority. Otherwise it returns the port field of the CLI record when that record has
  one, and \<open>parseInt(PORT, 10)\<close> when it has none, whatever the bind addresses of the two
  records and the port field of the config-file record are. The host it returns is the
  first non-empty one among the CLI record's \<open>host\<close>, the host of its \<open>bind-addr\<close>, the
  config-file record's \<open>host\<close>, the host of its \<open>bind-addr\<close>, and \<open>localhost\<close>: the
  environment has no part in it.
\<close>

theorem bindAddr_env_port:
  assumes "process_env w ''PORT'' = Some s" and "s \<noteq> []"
  shows "bindAddrFromAllSources e w cliArgs configArgs =
     (if (nonempty (get_string configArgs ''bind-addr'') \<and>
          http_URL e (the (get_string configArgs ''bind-addr'')) = None) \<or>
         (nonempty (get_string cliArgs ''bind-addr'') \<and>
          http_URL e (the (get_string cliArgs ''bind-addr'')) = None)
      then Inl TypeError
      else Inr (if nonempty (get_string cliArgs ''host'') then the (get_string cliArgs ''host'')
                else if nonempty (get_string cliArgs ''bind-addr'')
                then fst (the (http_URL e (the (get_string cliArgs ''bind-addr''))))
                else if nonempty (get_string configArgs ''host'')
                then the (get_string configArgs ''host'')
                else if nonempty (get_string configArgs ''bind-addr'')
                then fst (the (http_URL e (the (get_string configArgs ''bind-addr''))))
                else ''localhost'',
                case get_number cliArgs ''port'' of None \<Rightarrow> parseInt e s | Some n \<Rightarrow> n))"
proof -
  have env: "nonempty (process_env w ''PORT'')" "the (process_env w ''PORT'') = s"
    using assms by (simp_all add: nonempty_def)
  show ?thesis
    unfolding bindAddrFromAllSources_def bindAddrFromArgs_eq
    by (simp add: env split: option.splits)
qed

theorem bindAddr_env_port_witness:
  "process_env (sample_world\<lparr>process_env := [''PORT'' \<mapsto> ''7777'']\<rparr>) ''PORT'' = Some ''7777'' \<and>
   ''7777'' \<noteq> [] \<and>
   bindAddrFromAllSources sample_sys (sample_world\<lparr>process_env := [''PORT'' \<mapsto> ''7777'']\<rparr>)
      [(''_'', VList [])]
      [(''_'', VList []), (''bind-addr'', VStr ''0.0.0.0:9000''), (''port'', VNum (Num 9999))]
      = Inr (''0.0.0.0'', Num 7777)"
proof -
  let ?w = "sample_world\<lparr>process_env := [''PORT'' \<mapsto> ''7777'']\<rparr>"
  let ?cfg = "[(''_'', VList []), (''bind-addr'', VStr ''0.0.0.0:9000''), (''port'', VNum (Num 9999))]"
  have env: "process_env ?w ''PORT'' = Some ''7777''" and ne: "''7777'' \<noteq> []" by simp_all
  have p: "parseInt sample_sys ''7777'' = Num 7777" by (simp add: eval_num)
  have u: "http_URL sample_sys ''0.0.0.0:9000'' = Some (''0.0.0.0'', ''9000'')"
    by (simp add: eval_url eval_num sample_sys_def)
  have "bindAddrFromAllSources sample_sys ?w [(''_'', VList [])] ?cfg = Inr (''0.0.0.0'', Num 7777)"
    unfolding bindAddr_env_port[OF env ne, of sample_sys "[(''_'', VList [])]" ?cfg]
    by (simp add: get_string_def get_number_def nonempty_def u p)
  then show ?thesis by simp
qed

text \<open>
  C1 as stated fails: with the config-file \<open>bind-addr\<close> \<open>0.0.0.0:9000\<close>, the CLI
  \<open>--port=9999\<close> and \<open>PORT=7777\<close>, the resolved port is 9999, not 7777.
\<close>

theorem bindAddr_cli_port_counterexample:
  "bindAddrFromAllSources sample_sys (sample_world\<lparr>process_env := [''PORT'' \<mapsto> ''7777'']\<rparr>)
     [(''_'', VList []), (''port'', VNum (Num 9999))]
     [(''_'', VList []), (''bind-addr'', VStr ''0.0.0.0:9000'')]
   = Inr (''0.0.0.0'', Num 9999) \<and> Num 9999 \<noteq> parseInt sample_sys ''7777''"
  by (simp add: eval_addr eval_url eval_num sample_sys_def)

text \<open>
  C4, as amended. No step of bind-address resolution checks a range. The port it returns
  is an integer from 0 to 65535 whenever the port fields of both records, where present,
  and \<open>parseInt(PORT, 10)\<close>, where \<open>PORT\<close> is set, are: the default 8080 and every port
  that comes from a bind address are in the range.
\<close>

theorem bindAddr_port_range:
  assumes "bindAddrFromAllSources e w cliArgs configArgs = Inr (h, p)"
    and "\<forall>n. get_number cliArgs ''port'' = Some n \<longrightarrow> valid_port n"
    and "\<forall>n. get_number configArgs ''port'' = Some n \<longrightarrow> valid_port n"
    and "\<forall>s. process_env w ''PORT'' = Some s \<and> s \<noteq> [] \<longrightarrow> valid_port (parseInt e s)"
  shows "valid_port p"
proof -
  obtain a1 a2 where 1: "bindAddrFromArgs e w \<lparr>host = ''localhost'', port = Num 8080\<rparr> configArgs = Inr a1"
    and 2: "bindAddrFromArgs e w a1 cliArgs = Inr a2" and p: "p = port a2"
    using assms(1) unfolding bindAddrFromAllSources_def by (auto split: sum.splits)
  have "valid_port (port a1)"
    using bindAddrFromArgs_valid[OF 1 _ assms(3) assms(4)] by (simp add: valid_port_def)
  then show ?thesis using bindAddrFromArgs_valid[OF 2 _ assms(2) assms(4)] p by simp
qed

theorem bindAddr_port_range_witness:
  "bindAddrFromAllSources sample_sys sample_world
     [(''_'', VList []), (''port'', VNum (Num 9999))]
     [(''_'', VList []), (''bind-addr'', VStr ''0.0.0.0:9000'')] = Inr (''0.0.0.0'', Num 9999) \<and>
   valid_port (Num 9999)"
proof -
  let ?cli = "[(''_'', VList []), (''port'', VNum (Num 9999))]"
  let ?cfg = "[(''_'', VList []), (''bind-addr'', VStr ''0.0.0.0:9000'')]"
  have r: "bindAddrFromAllSources sample_sys sample_world ?cli ?cfg = Inr (''0.0.0.0'', Num 9999)"
    by (simp add: eval_addr eval_url eval_num sample_sys_def sample_world_def)
  have 1: "\<forall>n. get_number ?cli ''port'' = Some n \<longrightarrow> valid_port n"
    by (simp add: get_number_def valid_port_def)
  have 2: "\<forall>n. get_number ?cfg ''port'' = Some n \<longrightarrow> valid_port n"
    by (simp add: get_number_def)
  have 3: "\<forall>s. process_env sample_world ''PORT'' = Some s \<and> s \<noteq> [] \<longrightarrow> valid_port (parseInt sample_sys s)"
    by (simp add: sample_world_def)
  show ?thesis using bindAddr_port_range[OF r 1 2 3] r by simp
qed

text \<open>
  C4 as stated fails: the record that \<open>--port=70000\<close> parses to resolves to the port
  70000.
\<close>

theorem bindAddr_port_range_counterexample:
  "parse sample_sys [''--port=70000''] None = Inr [(''_'', VList []), (''port'', VNum (Num 70000))] \<and>
   bindAddrFromAllSources sample_sys sample_world
     [(''_'', VList []), (''port'', VNum (Num 70000))] [(''_'', VList [])]
     = Inr (''localhost'', Num 70000) \<and>
   \<not> valid_port (Num 70000)"
  by (simp add: eval_parse eval_addr eval_num valid_port_def)

section \<open>Properties of the defaults\<close>

lemma set_field_objs:
  "length (objs (set_field n k v w)) = length (objs w)"
  "take n (objs (set_field n k v w)) = take n (objs w)"
  by (simp_all add: set_field_def)

lemma set_field_keys:
  assumes "n < length (objs w)" and "map_of (objs w ! n) k' \<noteq> None"
  shows "map_of (objs (set_field n k v w) ! n) k' \<noteq> None"
  using assms by (simp add: set_field_def update_conv')

lemma copyOldMacOSDataDir_objs: "objs (snd (copyOldMacOSDataDir e w)) = objs w"
  by (simp add: copyOldMacOSDataDir_def Let_def split: sum.splits)

lemma kept_set_field: "kept xs a w \<Longrightarrow> kept xs a (set_field (length xs) k v w)"
  unfolding kept_def using set_field_keys[of "length xs" w _ k v]
  by (simp add: set_field_objs)

lemma kept_copy: "kept xs a w \<Longrightarrow> kept xs a (snd (copyOldMacOSDataDir e w))"
  unfolding kept_def by (simp add: copyOldMacOSDataDir_objs)

lemma kept_env: "kept xs a w \<Longrightarrow> kept xs a (w\<lparr>process_env := f\<rparr>)"
  "kept xs a w \<Longrightarrow> kept xs a (w\<lparr>logger_level := l\<rparr>)"
  unfolding kept_def by simp_all

lemma kept_alloc: "kept (objs w) (objs w ! r) (w\<lparr>objs := objs w @ [objs w ! r]\<rparr>)"
  unfolding kept_def by simp

lemma setDefaults_kept: "kept (objs w) (objs w ! r) (snd (setDefaults e w r))"
proof -
  let ?xs = "objs w" and ?o = "objs w ! r"
  define a where "a = length (objs w)"
  define w0 where "w0 = w\<lparr>objs := objs w @ [objs w ! r]\<rparr>"
  define first where "first =
     (if \<not> truthy (get_field w0 a ''user-data-dir'')
      then (case copyOldMacOSDataDir e w0 of
              (Inl err, w) \<Rightarrow> (Inl err, w)
            | (Inr u, w) \<Rightarrow> (Inr u, set_field a ''user-data-dir'' (VStr (paths_data e)) w))
      else (Inr (), w0))"
  define s2 where "s2 = (\<lambda>w. if \<not> truthy (get_field w a ''extensions-dir'')
                      then set_field a ''extensions-dir''
                             (VStr (path_join e [case get_field w a ''user-data-dir'' of
                                                   Some (VStr d) \<Rightarrow> d | _ \<Rightarrow> [], ''extensions''])) w
                      else w)"
  define s3 where "s3 = (\<lambda>w. if truthy (get_field w a ''verbose'') then set_field a ''log'' (VStr ''trace'') w
                      else if \<not> truthy (get_field w a ''log'')
                              \<and> nonempty (process_env w ''LOG_LEVEL'')
                              \<and> the (process_env w ''LOG_LEVEL'') \<in> set LogLevel_values
                      then set_field a ''log'' (VStr (the (process_env w ''LOG_LEVEL''))) w
                      else w)"
  define s4 where "s4 = (\<lambda>w. case get_field w a ''log'' of
                        Some (VStr l) \<Rightarrow>
                          if l \<noteq> [] then w\<lparr>process_env := (process_env w)(''LOG_LEVEL'' \<mapsto> l)\<rparr> else w
                      | _ \<Rightarrow> w)"
  define s5 where "s5 = (\<lambda>w. case get_field w a ''log'' of
                        Some (VStr l) \<Rightarrow>
                          (case level_of l of
                             None \<Rightarrow> w
                           | Some lv \<Rightarrow> set_field a ''verbose'' (VBool (lv = Trace)) (w\<lparr>logger_level := lv\<rparr>))
                      | _ \<Rightarrow> w)"
  have eq: "setDefaults e w r =
          (case first of (Inl err, w) \<Rightarrow> (Inl err, w) | (Inr u, w) \<Rightarrow> (Inr a, s5 (s4 (s3 (s2 w)))))"
    unfolding setDefaults_def Let_def first_def s2_def s3_def s4_def s5_def a_def w0_def ..
  have k0: "kept ?xs ?o w0" unfolding w0_def by (rule kept_alloc)
  have sf: "kept ?xs ?o v \<Longrightarrow> kept ?xs ?o (set_field a k x v)" for v k x
    unfolding a_def by (rule kept_set_field)
  have k1: "kept ?xs ?o (snd first)"
  proof (cases "truthy (get_field w0 a ''user-data-dir'')")
    case True
    then show ?thesis using k0 by (simp add: first_def)
  next
    case False
    obtain res w1 where c: "copyOldMacOSDataDir e w0 = (res, w1)" by (cases "copyOldMacOSDataDir e w0")
    have "kept ?xs ?o w1" using kept_copy[OF k0, of e] c by simp
    then show ?thesis using False c sf by (cases res) (simp_all add: first_def)
  qed
  have k2: "kept ?xs ?o v \<Longrightarrow> kept ?xs ?o (s2 v)" for v
    unfolding s2_def using sf by simp
  have k3: "kept ?xs ?o v \<Longrightarrow> kept ?xs ?o (s3 v)" for v
    unfolding s3_def using sf by simp
  have k4: "kept ?xs ?o v \<Longrightarrow> kept ?xs ?o (s4 v)" for v
    unfolding s4_def using kept_env(1) by (simp split: option.splits val.splits)
  have k5: "kept ?xs ?o v \<Longrightarrow> kept ?xs ?o (s5 v)" for v
    unfolding s5_def using sf kept_env(2) by (simp split: option.splits val.splits)
  obtain res w1 where f: "first = (res, w1)" by (cases first)
  show ?thesis
    using k1 k2 k3 k4 k5 unfolding eq f by (cases res) simp_all
qed

lemma get_set_field:
  "a < length (objs w) \<Longrightarrow>
   get_field (set_field a k v w) a k' = (if k' = k then Some v else get_field w a k')"
  by (simp add: get_field_def set_field_def update_conv')

lemma set_field_other:
  "process_env (set_field a k v w) = process_env w"
  "length (objs (set_field a k v w)) = length (objs w)"
  by (simp_all add: set_field_def)

lemma copyOldMacOSDataDir_env:
  "process_env (snd (copyOldMacOSDataDir e w)) = process_env w"
  by (simp add: copyOldMacOSDataDir_def Let_def split: sum.splits)

lemma setDefaults_fields:
  assumes "fst (setDefaults e w r) = Inr a"
  shows "a = length (objs w) \<and>
     length (objs (snd (setDefaults e w r))) = Suc (length (objs w)) \<and>
     (\<forall>k. k \<noteq> ''user-data-dir'' \<and> k \<noteq> ''extensions-dir'' \<and> k \<noteq> ''log'' \<and> k \<noteq> ''verbose'' \<longrightarrow>
        get_field (snd (setDefaults e w r)) a k = get_field w r k) \<and>
     get_field (snd (setDefaults e w r)) a ''user-data-dir'' =
       (if truthy (get_field w r ''user-data-dir'') then get_field w r ''user-data-dir''
        else Some (VStr (paths_data e))) \<and>
     get_field (snd (setDefaults e w r)) a ''extensions-dir'' =
       (if truthy (get_field w r ''extensions-dir'') then get_field w r ''extensions-dir''
        else Some (VStr (path_join e
               [case get_field (snd (setDefaults e w r)) a ''user-data-dir'' of
                  Some (VStr d) \<Rightarrow> d | _ \<Rightarrow> [], ''extensions'']))) \<and>
     get_field (snd (setDefaults e w r)) a ''log'' =
       (if truthy (get_field w r ''verbose'') then Some (VStr ''trace'')
        else if \<not> truthy (get_field w r ''log'') \<and> nonempty (process_env w ''LOG_LEVEL'') \<and>
                the (process_env w ''LOG_LEVEL'') \<in> set LogLevel_values
        then Some (VStr (the (process_env w ''LOG_LEVEL'')))
        else get_field w r ''log'') \<and>
     get_field (snd (setDefaults e w r)) a ''verbose'' =
       (case get_field (snd (setDefaults e w r)) a ''log'' of
          Some (VStr l) \<Rightarrow>
            (case level_of l of
               None \<Rightarrow> get_field w r ''verbose''
             | Some lv \<Rightarrow> Some (VBool (lv = Trace)))
        | _ \<Rightarrow> get_field w r ''verbose'')"
proof -
  define n where "n = length (objs w)"
  define w0 where "w0 = w\<lparr>objs := objs w @ [objs w ! r]\<rparr>"
  define first where "first =
     (if \<not> truthy (get_field w0 n ''user-data-dir'')
      then (case copyOldMacOSDataDir e w0 of
              (Inl err, w) \<Rightarrow> (Inl err, w)
            | (Inr u, w) \<Rightarrow> (Inr u, set_field n ''user-data-dir'' (VStr (paths_data e)) w))
      else (Inr (), w0))"
  define s2 where "s2 = (\<lambda>w. if \<not> truthy (get_field w n ''extensions-dir'')
                      then set_field n ''extensions-dir''
                             (VStr (path_join e [case get_field w n ''user-data-dir'' of
                                                   Some (VStr d) \<Rightarrow> d | _ \<Rightarrow> [], ''extensions''])) w
                      else w)"
  define s3 where "s3 = (\<lambda>w. if truthy (get_field w n ''verbose'') then set_field n ''log'' (VStr ''trace'') w
                      else if \<not> truthy (get_field w n ''log'')
                              \<and> nonempty (process_env w ''LOG_LEVEL'')
                              \<and> the (process_env w ''LOG_LEVEL'') \<in> set LogLevel_values
                      then set_field n ''log'' (VStr (the (process_env w ''LOG_LEVEL''))) w
                      else w)"
  define s4 where "s4 = (\<lambda>w. case get_field w n ''log'' of
                        Some (VStr l) \<Rightarrow>
                          if l \<noteq> [] then w\<lparr>process_env := (process_env w)(''LOG_LEVEL'' \<mapsto> l)\<rparr> else w
                      | _ \<Rightarrow> w)"
  define s5 where "s5 = (\<lambda>w. case get_field w n ''log'' of
                        Some (VStr l) \<Rightarrow>
                          (case level_of l of
                             None \<Rightarrow> w
                           | Some lv \<Rightarrow> set_field n ''verbose'' (VBool (lv = Trace)) (w\<lparr>logger_level := lv\<rparr>))
                      | _ \<Rightarrow> w)"
  have eq: "setDefaults e w r =
          (case first of (Inl err, w) \<Rightarrow> (Inl err, w) | (Inr u, w) \<Rightarrow> (Inr n, s5 (s4 (s3 (s2 w)))))"
    unfolding setDefaults_def Let_def first_def s2_def s3_def s4_def s5_def n_def w0_def ..
  obtain res w1 where f: "first = (res, w1)" by (cases first)
  have res: "res = Inr ()" and a: "a = n" using assms unfolding eq f by (cases res; simp)+
  have fin: "snd (setDefaults e w r) = s5 (s4 (s3 (s2 w1)))" unfolding eq f res by simp
  define old where "old = get_field w r"
  have g0: "get_field w0 n k = old k" "length (objs w0) = Suc n" "process_env w0 = process_env w" for k
    by (simp_all add: w0_def get_field_def n_def old_def)
  have w1: "length (objs w1) = Suc n \<and> process_env w1 = process_env w \<and>
            (\<forall>k. get_field w1 n k =
               (if k = ''user-data-dir'' \<and> \<not> truthy (old ''user-data-dir'')
                then Some (VStr (paths_data e)) else old k))"
  proof (cases "truthy (old ''user-data-dir'')")
    case True
    then have "w1 = w0" using f by (simp add: first_def g0)
    then show ?thesis using True g0 by simp
  next
    case False
    obtain res' w' where c: "copyOldMacOSDataDir e w0 = (res', w')" by (cases "copyOldMacOSDataDir e w0")
    have w': "objs w' = objs w0" "process_env w' = process_env w0"
      using copyOldMacOSDataDir_objs[of e w0] copyOldMacOSDataDir_env[of e w0] c by simp_all
    have "w1 = set_field n ''user-data-dir'' (VStr (paths_data e)) w'"
      using f res False c by (cases res') (simp_all add: first_def g0)
    moreover have "get_field w' n k = old k" for k using g0(1)[of k] w'(1) by (simp add: get_field_def)
    moreover have "n < length (objs w')" using w'(1) g0(2) by simp
    ultimately show ?thesis using False w' g0 by (simp add: get_set_field set_field_other)
  qed
  define g1 where "g1 = get_field w1 n"
  have l1: "n < length (objs w1)" using w1 by simp
  have w2: "length (objs (s2 w1)) = Suc n \<and> process_env (s2 w1) = process_env w \<and>
            (\<forall>k. get_field (s2 w1) n k =
               (if k = ''extensions-dir'' \<and> \<not> truthy (g1 ''extensions-dir'')
                then Some (VStr (path_join e [case g1 ''user-data-dir'' of
                                                   Some (VStr d) \<Rightarrow> d | _ \<Rightarrow> [], ''extensions'']))
                else g1 k))"
    using w1 l1 by (simp add: s2_def g1_def get_set_field set_field_other)
  define g2 where "g2 = get_field (s2 w1) n"
  have l2: "n < length (objs (s2 w1))" using w2 by simp
  have w3: "length (objs (s3 (s2 w1))) = Suc n \<and>
            (\<forall>k. get_field (s3 (s2 w1)) n k =
               (if k = ''log'' \<and> truthy (g2 ''verbose'') then Some (VStr ''trace'')
                else if k = ''log'' \<and> \<not> truthy (g2 ''log'') \<and> nonempty (process_env w ''LOG_LEVEL'') \<and>
                        the (process_env w ''LOG_LEVEL'') \<in> set LogLevel_values
                then Some (VStr (the (process_env w ''LOG_LEVEL'')))
                else g2 k))"
    using w2 l2 by (auto simp: s3_def g2_def get_set_field set_field_other)
  define g3 where "g3 = get_field (s3 (s2 w1)) n"
  have w4: "length (objs (s4 (s3 (s2 w1)))) = Suc n \<and> (\<forall>k. get_field (s4 (s3 (s2 w1))) n k = g3 k)"
  proof -
    have "objs (s4 x) = objs x" for x
      by (simp add: s4_def split: option.splits val.splits)
    then show ?thesis using w3 by (simp add: g3_def get_field_def)
  qed
  have l4: "n < length (objs (s4 (s3 (s2 w1))))" using w4 by simp
  have w5: "length (objs (s5 (s4 (s3 (s2 w1))))) = Suc n \<and>
            (\<forall>k. get_field (s5 (s4 (s3 (s2 w1)))) n k =
               (case g3 ''log'' of
                  Some (VStr l) \<Rightarrow>
                    (case level_of l of
                       None \<Rightarrow> g3 k
                     | Some lv \<Rightarrow> if k = ''verbose'' then Some (VBool (lv = Trace)) else g3 k)
                | _ \<Rightarrow> g3 k))"
  proof -
    have sf: "get_field (set_field n k' v (x\<lparr>logger_level := lv\<rparr>)) n k =
              (if k = k' then Some v else get_field x n k)"
             "length (objs (set_field n k' v (x\<lparr>logger_level := lv\<rparr>))) = length (objs x)"
      if "n < length (objs x)" for x k k' v lv
      using that by (simp_all add: get_field_def set_field_def update_conv')
    show ?thesis
      using w4 sf[OF l4] unfolding s5_def
      by (auto split: option.splits val.splits)
  qed
  have G1: "g1 k = (if k = ''user-data-dir'' \<and> \<not> truthy (old ''user-data-dir'')
                then Some (VStr (paths_data e)) else old k)" for k
    using w1 by (simp add: g1_def)
  have G2: "g2 k = (if k = ''extensions-dir'' \<and> \<not> truthy (g1 ''extensions-dir'')
                then Some (VStr (path_join e [case g1 ''user-data-dir'' of
                                                   Some (VStr d) \<Rightarrow> d | _ \<Rightarrow> [], ''extensions'']))
                else g1 k)" for k
    using w2 by (simp add: g2_def)
  have G3: "g3 k = (if k = ''log'' \<and> truthy (g2 ''verbose'') then Some (VStr ''trace'')
                else if k = ''log'' \<and> \<not> truthy (g2 ''log'') \<and> nonempty (process_env w ''LOG_LEVEL'') \<and>
                        the (process_env w ''LOG_LEVEL'') \<in> set LogLevel_values
                then Some (VStr (the (process_env w ''LOG_LEVEL'')))
                else g2 k)" for k
    using w3 by (simp add: g3_def)
  define new where "new = get_field (snd (setDefaults e w r)) a"
  have N: "new k = (case g3 ''log'' of
                  Some (VStr l) \<Rightarrow>
                    (case level_of l of
                       None \<Rightarrow> g3 k
                     | Some lv \<Rightarrow> if k = ''verbose'' then Some (VBool (lv = Trace)) else g3 k)
                | _ \<Rightarrow> g3 k)" for k
    using w5 unfolding new_def fin a by simp
  have nk: "new k = g3 k" if "k \<noteq> ''verbose''" for k
    unfolding N using that by (simp split: option.splits val.splits)
  have v1: "g2 ''verbose'' = old ''verbose''" "g2 ''log'' = old ''log''"
           "g3 ''verbose'' = old ''verbose''"
    by (simp_all add: G3 G2 G1)
  have c0: "new k = old k"
    if "k \<noteq> ''user-data-dir'' \<and> k \<noteq> ''extensions-dir'' \<and> k \<noteq> ''log'' \<and> k \<noteq> ''verbose''" for k
    using that by (simp add: nk G3 G2 G1)
  have c1: "new ''user-data-dir'' = (if truthy (old ''user-data-dir'') then old ''user-data-dir''
        else Some (VStr (paths_data e)))"
    by (simp add: nk G3 G2 G1)
  have c2: "new ''extensions-dir'' = (if truthy (old ''extensions-dir'') then old ''extensions-dir''
        else Some (VStr (path_join e
               [case new ''user-data-dir'' of Some (VStr d) \<Rightarrow> d | _ \<Rightarrow> [], ''extensions''])))"
    by (simp add: nk G3 G2 G1)
  have c3: "new ''log'' = (if truthy (old ''verbose'') then Some (VStr ''trace'')
        else if \<not> truthy (old ''log'') \<and> nonempty (process_env w ''LOG_LEVEL'') \<and>
                the (process_env w ''LOG_LEVEL'') \<in> set LogLevel_values
        then Some (VStr (the (process_env w ''LOG_LEVEL'')))
        else old ''log'')"
    by (simp add: nk G3[of "''log''"] v1)
  have c4: "new ''verbose'' = (case new ''log'' of
          Some (VStr l) \<Rightarrow>
            (case level_of l of None \<Rightarrow> old ''verbose'' | Some lv \<Rightarrow> Some (VBool (lv = Trace)))
        | _ \<Rightarrow> old ''verbose'')"
    unfolding nk[of "''log''", simplified] unfolding N[of "''verbose''"] v1
    by (simp split: option.splits val.splits)
  have len: "length (objs (snd (setDefaults e w r))) = Suc (length (objs w))"
    using w5 unfolding fin n_def by simp
  show ?thesis
    using a len c0 c1 c2 c3 c4 unfolding new_def old_def n_def by blast
qed

lemma setDefaults_result:
  "fst (setDefaults e w r) =
     (if truthy (get_field w r ''user-data-dir'') then Inr (length (objs w))
      else (case fst (copyOldMacOSDataDir e (w\<lparr>objs := objs w @ [objs w ! r]\<rparr>)) of
              Inl err \<Rightarrow> Inl err
            | Inr u \<Rightarrow> Inr (length (objs w))))"
proof -
  have g: "get_field (w\<lparr>objs := objs w @ [objs w ! r]\<rparr>) (length (objs w)) k = get_field w r k" for k
    by (simp add: get_field_def)
  show ?thesis
    unfolding setDefaults_def Let_def g
    by (cases "copyOldMacOSDataDir e (w\<lparr>objs := objs w @ [objs w ! r]\<rparr>)")
       (auto split: sum.splits)
qed

text \<open>
  C9, as amended. \<open>setDefaults\<close> does not mutate its input: after the call every object
  that existed before, the input among them, has the properties it had. It fails only
  when the user-data directory is unset and the copy of the old data directory fails.
  Otherwise the record returned is a new object, a copy of the input in which every
  property other than \<open>user-data-dir\<close>, \<open>extensions-dir\<close>, \<open>log\<close> and \<open>verbose\<close> has
  the value of the input, and these four are: the input's directory when it is set and
  the default one when it is not; \<open>trace\<close> when \<open>verbose\<close> is set, the valid level of the
  environment when \<open>log\<close> is unset, and the input's \<open>log\<close> otherwise; \<open>verbose\<close> as the
  resulting level gives it.
\<close>

theorem setDefaults_frame:
  assumes "r < length (objs w)"
  shows "(\<forall>r'. r' < length (objs w) \<longrightarrow> objs (snd (setDefaults e w r)) ! r' = objs w ! r') \<and>
     fst (setDefaults e w r) =
       (if truthy (get_field w r ''user-data-dir'') then Inr (length (objs w))
        else (case fst (copyOldMacOSDataDir e (w\<lparr>objs := objs w @ [objs w ! r]\<rparr>)) of
                Inl err \<Rightarrow> Inl err
              | Inr u \<Rightarrow> Inr (length (objs w)))) \<and>
     (\<forall>a. fst (setDefaults e w r) = Inr a \<longrightarrow>
        a \<noteq> r \<and> a = length (objs w) \<and>
        length (objs (snd (setDefaults e w r))) = Suc (length (objs w)) \<and>
        (\<forall>k. k \<noteq> ''user-data-dir'' \<and> k \<noteq> ''extensions-dir'' \<and> k \<noteq> ''log'' \<and> k \<noteq> ''verbose'' \<longrightarrow>
           get_field (snd (setDefaults e w r)) a k = get_field w r k) \<and>
        get_field (snd (setDefaults e w r)) a ''user-data-dir'' =
          (if truthy (get_field w r ''user-data-dir'') then get_field w r ''user-data-dir''
           else Some (VStr (paths_data e))) \<and>
        get_field (snd (setDefaults e w r)) a ''extensions-dir'' =
          (if truthy (get_field w r ''extensions-dir'') then get_field w r ''extensions-dir''
           else Some (VStr (path_join e
                  [case get_field (snd (setDefaults e w r)) a ''user-data-dir'' of
                     Some (VStr d) \<Rightarrow> d | _ \<Rightarrow> [], ''extensions'']))) \<and>
        get_field (snd (setDefaults e w r)) a ''log'' =
          (if truthy (get_field w r ''verbose'') then Some (VStr ''trace'')
           else if \<not> truthy (get_field w r ''log'') \<and> nonempty (process_env w ''LOG_LEVEL'') \<and>
                   the (process_env w ''LOG_LEVEL'') \<in> set LogLevel_values
           then Some (VStr (the (process_env w ''LOG_LEVEL'')))
           else get_field w r ''log'') \<and>
        get_field (snd (setDefaults e w r)) a ''verbose'' =
          (case get_field (snd (setDefaults e w r)) a ''log'' of
             Some (VStr l) \<Rightarrow>
               (case level_of l of
                  None \<Rightarrow> get_field w r ''verbose''
                | Some lv \<Rightarrow> Some (VBool (lv = Trace)))
           | _ \<Rightarrow> get_field w r ''verbose''))"
proof (intro conjI)
  let ?w' = "snd (setDefaults e w r)"
  have k: "kept (objs w) (objs w ! r) ?w'" by (rule setDefaults_kept)
  have t: "take (length (objs w)) (objs ?w') = objs w" using k by (simp add: kept_def)
  have same: "objs ?w' ! r' = objs w ! r'" if "r' < length (objs w)" for r'
    using that nth_take[of r' "length (objs w)" "objs ?w'"] t by simp
  show "\<forall>r'. r' < length (objs w) \<longrightarrow> objs ?w' ! r' = objs w ! r'" using same by blast
  show "fst (setDefaults e w r) =
       (if truthy (get_field w r ''user-data-dir'') then Inr (length (objs w))
        else (case fst (copyOldMacOSDataDir e (w\<lparr>objs := objs w @ [objs w ! r]\<rparr>)) of
                Inl err \<Rightarrow> Inl err
              | Inr u \<Rightarrow> Inr (length (objs w))))"
    by (rule setDefaults_result)
next
  show "\<forall>a. fst (setDefaults e w r) = Inr a \<longrightarrow>
        a \<noteq> r \<and> a = length (objs w) \<and>
        length (objs (snd (setDefaults e w r))) = Suc (length (objs w)) \<and>
        (\<forall>k. k \<noteq> ''user-data-dir'' \<and> k \<noteq> ''extensions-dir'' \<and> k \<noteq> ''log'' \<and> k \<noteq> ''verbose'' \<longrightarrow>
           get_field (snd (setDefaults e w r)) a k = get_field w r k) \<and>
        get_field (snd (setDefaults e w r)) a ''user-data-dir'' =
          (if truthy (get_field w r ''user-data-dir'') then get_field w r ''user-data-dir''
           else Some (VStr (paths_data e))) \<and>
        get_field (snd (setDefaults e w r)) a ''extensions-dir'' =
          (if truthy (get_field w r ''extensions-dir'') then get_field w r ''extensions-dir''
           else Some (VStr (path_join e
                  [case get_field (snd (setDefaults e w r)) a ''user-data-dir'' of
                     Some (VStr d) \<Rightarrow> d | _ \<Rightarrow> [], ''extensions'']))) \<and>
        get_field (snd (setDefaults e w r)) a ''log'' =
          (if truthy (get_field w r ''verbose'') then Some (VStr ''trace'')
           else if \<not> truthy (get_field w r ''log'') \<and> nonempty (process_env w ''LOG_LEVEL'') \<and>
                   the (process_env w ''LOG_LEVEL'') \<in> set LogLevel_values
           then Some (VStr (the (process_env w ''LOG_LEVEL'')))
           else get_field w r ''log'') \<and>
        get_field (snd (setDefaults e w r)) a ''verbose'' =
          (case get_field (snd (setDefaults e w r)) a ''log'' of
             Some (VStr l) \<Rightarrow>
               (case level_of l of
                  None \<Rightarrow> get_field w r ''verbose''
                | Some lv \<Rightarrow> Some (VBool (lv = Trace)))
           | _ \<Rightarrow> get_field w r ''verbose'')"
  proof (intro allI impI)
    fix a assume h: "fst (setDefaults e w r) = Inr a"
    have f: "a = length (objs w)" using setDefaults_fields[OF h] by (rule conjunct1)
    have ne: "a \<noteq> r" using f assms by simp
    show "a \<noteq> r \<and> a = length (objs w) \<and>
        length (objs (snd (setDefaults e w r))) = Suc (length (objs w)) \<and>
        (\<forall>k. k \<noteq> ''user-data-dir'' \<and> k \<noteq> ''extensions-dir'' \<and> k \<noteq> ''log'' \<and> k \<noteq> ''verbose'' \<longrightarrow>
           get_field (snd (setDefaults e w r)) a k = get_field w r k) \<and>
        get_field (snd (setDefaults e w r)) a ''user-data-dir'' =
          (if truthy (get_field w r ''user-data-dir'') then get_field w r ''user-data-dir''
           else Some (VStr (paths_data e))) \<and>
        get_field (snd (setDefaults e w r)) a ''extensions-dir'' =
          (if truthy (get_field w r ''extensions-dir'') then get_field w r ''extensions-dir''
           else Some (VStr (path_join e
                  [case get_field (snd (setDefaults e w r)) a ''user-data-dir'' of
                     Some (VStr d) \<Rightarrow> d | _ \<Rightarrow> [], ''extensions'']))) \<and>
        get_field (snd (setDefaults e w r)) a ''log'' =
          (if truthy (get_field w r ''verbose'') then Some (VStr ''trace'')
           else if \<not> truthy (get_field w r ''log'') \<and> nonempty (process_env w ''LOG_LEVEL'') \<and>
                   the (process_env w ''LOG_LEVEL'') \<in> set LogLevel_values
           then Some (VStr (the (process_env w ''LOG_LEVEL'')))
           else get_field w r ''log'') \<and>
        get_field (snd (setDefaults e w r)) a ''verbose'' =
          (case get_field (snd (setDefaults e w r)) a ''log'' of
             Some (VStr l) \<Rightarrow>
               (case level_of l of
                  None \<Rightarrow> get_field w r ''verbose''
                | Some lv \<Rightarrow> Some (VBool (lv = Trace)))
           | _ \<Rightarrow> get_field w r ''verbose'')"
      by (rule conjI[OF ne setDefaults_fields[OF h]])
  qed
qed

lemma sample_defaults:
  "fst (setDefaults sample_sys (sample_world\<lparr>objs := [a]\<rparr>) 0) = Inr 1"
  unfolding setDefaults_result
  by (simp add: copyOldMacOSDataDir_def sample_sys_def)

theorem setDefaults_frame_witness:
  "(0::nat) < length (objs (sample_world\<lparr>objs := [[(''_'', VList []), (''log'', VStr ''debug'')]]\<rparr>)) \<and>
   objs (snd (setDefaults sample_sys
                (sample_world\<lparr>objs := [[(''_'', VList []), (''log'', VStr ''debug'')]]\<rparr>) 0)) ! 0
     = [(''_'', VList []), (''log'', VStr ''debug'')] \<and>
   fst (setDefaults sample_sys
          (sample_world\<lparr>objs := [[(''_'', VList []), (''log'', VStr ''debug'')]]\<rparr>) 0) = Inr 1 \<and>
   get_field (snd (setDefaults sample_sys
          (sample_world\<lparr>objs := [[(''_'', VList []), (''log'', VStr ''debug'')]]\<rparr>) 0)) 1 ''_''
     = Some (VList []) \<and>
   get_field (snd (setDefaults sample_sys
          (sample_world\<lparr>objs := [[(''_'', VList []), (''log'', VStr ''debug'')]]\<rparr>) 0)) 1 ''log''
     = Some (VStr ''debug'') \<and>
   get_field (snd (setDefaults sample_sys
          (sample_world\<lparr>objs := [[(''_'', VList []), (''log'', VStr ''debug'')]]\<rparr>) 0)) 1 ''verbose''
     = Some (VBool False)"
proof -
  let ?w = "sample_world\<lparr>objs := [[(''_'', VList []), (''log'', VStr ''debug'')]]\<rparr>"
  have l: "(0::nat) < length (objs ?w)" by simp
  have r: "fst (setDefaults sample_sys ?w 0) = Inr 1" by (rule sample_defaults)
  have old: "get_field ?w 0 ''_'' = Some (VList [])" "get_field ?w 0 ''log'' = Some (VStr ''debug'')"
    "get_field ?w 0 ''verbose'' = None"
    by (simp_all add: get_field_def)
  have env: "process_env ?w ''LOG_LEVEL'' = None" by (simp add: sample_world_def)
  from setDefaults_frame[OF l, of sample_sys] r old
  show ?thesis by (simp add: truthy_def level_of_def)
qed

text \<open>
  C9 as stated fails in its first half: the record returned is not the input with
  fields added. For the input \<open>{verbose: true, log: "debug"}\<close> it holds \<open>trace\<close> under
  \<open>log\<close>, where the input holds \<open>debug\<close>.
\<close>

theorem setDefaults_frame_counterexample:
  "fst (setDefaults sample_sys
          (sample_world\<lparr>objs := [[(''_'', VList []), (''verbose'', VBool True), (''log'', VStr ''debug'')]]\<rparr>) 0)
     = Inr 1 \<and>
   get_field (sample_world\<lparr>objs := [[(''_'', VList []), (''verbose'', VBool True), (''log'', VStr ''debug'')]]\<rparr>)
     0 ''log'' = Some (VStr ''debug'') \<and>
   get_field (snd (setDefaults sample_sys
          (sample_world\<lparr>objs := [[(''_'', VList []), (''verbose'', VBool True), (''log'', VStr ''debug'')]]\<rparr>) 0))
     1 ''log'' = Some (VStr ''trace'')"
proof -
  let ?w = "sample_world\<lparr>objs := [[(''_'', VList []), (''verbose'', VBool True), (''log'', VStr ''debug'')]]\<rparr>"
  have r: "fst (setDefaults sample_sys ?w 0) = Inr 1" by (rule sample_defaults)
  have old: "get_field ?w 0 ''log'' = Some (VStr ''debug'')" "get_field ?w 0 ''verbose'' = Some (VBool True)"
    by (simp_all add: get_field_def)
  from setDefaults_fields[OF r] old show ?thesis using r by (simp add: truthy_def)
qed

section \<open>Properties of the parser\<close>

lemma options_names:
  assumes "map_of options k = Some option"
  shows "k \<noteq> [] \<and> CHR ''='' \<notin> set k \<and> k \<noteq> ''-''"
proof -
  have "(k, option) \<in> set options" using assms by (rule map_of_SomeD)
  then show ?thesis unfolding options_def by auto
qed

lemma options_number:
  assumes "map_of options k = Some option" and "type option = T_number"
  shows "k = ''port'' \<and> \<not> path option"
  using assms unfolding options_def mk_def mk_short_def mk_path_def
  by (auto split: if_splits)

lemma options_password:
  "map_of options ''password'' = Some (mk T_string)"
  by (simp add: options_def)

lemma options_get_own: "map_of options k = Some option \<Longrightarrow> options_get k = Some (Own option)"
  by (simp add: options_get_def)

lemma takeWhile_no_eq:
  "CHR ''='' \<notin> set k \<Longrightarrow> takeWhile (\<lambda>c. c \<noteq> CHR ''='') (k @ ys) = k @ takeWhile (\<lambda>c. c \<noteq> CHR ''='') ys"
  by (induction k) auto

lemma dropWhile_no_eq:
  "CHR ''='' \<notin> set k \<Longrightarrow> dropWhile (\<lambda>c. c \<noteq> CHR ''='') (k @ ys) = dropWhile (\<lambda>c. c \<noteq> CHR ''='') ys"
  by (induction k) auto

lemma split_inline:
  assumes "CHR ''='' \<notin> set k"
  shows "split_key (''--'' @ k @ ''='' @ v) = k"
    and "split_value (''--'' @ k @ ''='' @ v) = Some (takeWhile (\<lambda>c. c \<noteq> CHR ''='') v)"
proof -
  have tw: "takeWhile (\<lambda>c. c \<noteq> CHR ''='') (k @ CHR ''='' # v) = k"
    using takeWhile_no_eq[OF assms, of "CHR ''='' # v"] by simp
  have dw: "dropWhile (\<lambda>c. c \<noteq> CHR ''='') (k @ CHR ''='' # v) = CHR ''='' # v"
    using dropWhile_no_eq[OF assms, of "CHR ''='' # v"] by simp
  show "split_key (''--'' @ k @ ''='' @ v) = k" using tw by (simp add: split_key_def)
  show "split_value (''--'' @ k @ ''='' @ v) = Some (takeWhile (\<lambda>c. c \<noteq> CHR ''='') v)"
    using dw by (simp add: split_value_def)
qed

lemma split_bare:
  assumes "CHR ''='' \<notin> set k"
  shows "split_key (''--'' @ k) = k" and "split_value (''--'' @ k) = None"
  using assms takeWhile_no_eq[OF assms, of "[]"] by (simp_all add: split_key_def split_value_def)

lemma parse_option_inline:
  assumes "map_of options k = Some option"
  shows "parse_option e cf a (''--'' @ k @ ''='' @ v) rest =
     (if k = ''password'' \<and> \<not> nonempty cf then Inl RestrictedOptionError
      else if type option = T_boolean then Inr (AList.update k (VBool True) a, False)
      else if takeWhile (\<lambda>c. c \<noteq> CHR ''='') v = [] \<and> type option = T_OptionalString
      then Inr (AList.update k (VOpt (Some [])) a, False)
      else if takeWhile (\<lambda>c. c \<noteq> CHR ''='') v = [] then Inl (error cf (MissingValueError k))
      else if type option = T_OptionalString \<and> takeWhile (\<lambda>c. c \<noteq> CHR ''='') v = ''false''
      then Inr (a, False)
      else
        (case store e cf (Own option) k
                (if path option then path_resolve e (takeWhile (\<lambda>c. c \<noteq> CHR ''='') v)
                 else takeWhile (\<lambda>c. c \<noteq> CHR ''='') v) a of
           Inl err \<Rightarrow> Inl err
         | Inr a' \<Rightarrow> Inr (a', False)))"
proof -
  have n: "k \<noteq> []" "CHR ''='' \<notin> set k" using options_names[OF assms] by simp_all
  have p: "prefix ''--'' (''--'' @ k @ ''='' @ v)" by simp
  show ?thesis
    unfolding parse_option_def Let_def
    by (simp only: p if_True split_inline[OF n(2)] option.case)
       (auto simp: n options_get_own[OF assms] option_type_def option_path_def nonempty_def split: sum.splits)
qed

lemma parse_option_bare:
  assumes "map_of options k = Some option"
  shows "parse_option e cf a (''--'' @ k) rest =
     (if k = ''password'' \<and> \<not> nonempty cf then Inl RestrictedOptionError
      else if type option = T_boolean then Inr (AList.update k (VBool True) a, False)
      else if next_is_value rest then
        (if type option = T_OptionalString \<and> hd rest = ''false'' then Inr (a, True)
         else
           (case store e cf (Own option) k
                   (if path option then path_resolve e (hd rest) else hd rest) a of
              Inl err \<Rightarrow> Inl err
            | Inr a' \<Rightarrow> Inr (a', True)))
      else if type option = T_OptionalString then Inr (AList.update k (VOpt None) a, False)
      else Inl (error cf (MissingValueError k)))"
proof -
  have n: "k \<noteq> []" "CHR ''='' \<notin> set k" using options_names[OF assms] by simp_all
  have p: "prefix ''--'' (''--'' @ k)" by simp
  show ?thesis
    unfolding parse_option_def Let_def
    by (simp only: p if_True split_bare[OF n(2)] option.case)
       (auto simp: n options_get_own[OF assms] option_type_def option_path_def nonempty_def next_is_value_def split: sum.splits)
qed

lemma token_not_separator:
  assumes "map_of options k = Some option"
  shows "''--'' @ k \<noteq> ''--''" "''--'' @ k @ ''='' @ v \<noteq> ''--''" "prefix ''-'' (''--'' @ k)" "prefix ''-'' (''--'' @ k @ ''='' @ v)"
  using options_names[OF assms] by simp_all


lemma parse_loop_option:
  assumes "map_of options k = Some option"
  shows "parse_loop e cf False a ((''--'' @ k) # rest) =
           (case parse_option e cf a (''--'' @ k) rest of
              Inl err \<Rightarrow> Inl err
            | Inr (a', consumed) \<Rightarrow> parse_loop e cf False a' (if consumed then tl rest else rest))"
    and "parse_loop e cf False a ((''--'' @ k @ ''='' @ v) # rest) =
           (case parse_option e cf a (''--'' @ k @ ''='' @ v) rest of
              Inl err \<Rightarrow> Inl err
            | Inr (a', consumed) \<Rightarrow> parse_loop e cf False a' (if consumed then tl rest else rest))"
  using token_not_separator[OF assms] by simp_all

text \<open>
  C6, as amended. A non-boolean option token \<open>--key\<close> without an inline value, followed
  by a token that starts with \<open>-\<close> or by no token, never consumes what follows: for
  \<open>password\<close> outside a config file the parse fails with the restricted-option error;
  otherwise an \<open>OptionalString\<close> option is stored present without payload and parsing
  goes on with the following token, and any other option fails with the missing-value
  error.
\<close>

theorem option_without_value:
  assumes "map_of options k = Some option" and "type option \<noteq> T_boolean"
    and "rest = [] \<or> prefix ''-'' (hd rest)"
  shows "parse_loop e cf False a ((''--'' @ k) # rest) =
     (if k = ''password'' \<and> \<not> nonempty cf then Inl RestrictedOptionError
      else if type option = T_OptionalString
      then parse_loop e cf False (AList.update k (VOpt None) a) rest
      else Inl (error cf (MissingValueError k)))"
proof -
  have "\<not> next_is_value rest" using assms(3) by (auto simp: next_is_value_def)
  then show ?thesis
    unfolding parse_loop_option(1)[OF assms(1)] parse_option_bare[OF assms(1)]
    using assms(2) by simp
qed

theorem option_without_value_witness:
  "map_of options ''cert'' = Some (mk_path T_OptionalString) \<and>
   type (mk_path T_OptionalString) \<noteq> T_boolean \<and>
   prefix ''-'' (hd [''--cert-host=x'']) \<and>
   parse sample_sys [''--cert'', ''--cert-host=x''] None =
     Inr [(''_'', VList []), (''cert'', VOpt None), (''cert-host'', VStr ''x'')]"
proof -
  have 1: "map_of options ''cert'' = Some (mk_path T_OptionalString)" by (simp add: options_def)
  have 2: "type (mk_path T_OptionalString) \<noteq> T_boolean" by (simp add: mk_path_def)
  have 3: "[''--cert-host=x''] = [] \<or> prefix ''-'' (hd [''--cert-host=x''])" by simp
  have "parse_loop sample_sys None False [(''_'', VList [])] ((''--'' @ ''cert'') # [''--cert-host=x'']) =
        Inr [(''_'', VList []), (''cert'', VOpt None), (''cert-host'', VStr ''x'')]"
    unfolding option_without_value[OF 1 2 3]
    by (simp add: eval_parse mk_path_def)
  then show ?thesis using 1 2 by (simp add: parse_def)
qed

text \<open>
  C6 as stated fails for the non-boolean option \<open>password\<close> on the command line: the
  error is the restricted-option error, not the missing-value error.
\<close>

theorem option_without_value_counterexample:
  "map_of options ''password'' = Some (mk T_string) \<and> type (mk T_string) \<noteq> T_boolean \<and>
   parse sample_sys [''--password'', ''-x''] None = Inl RestrictedOptionError \<and>
   parse sample_sys [''--password'', ''-x''] None \<noteq> Inl (error None (MissingValueError ''password''))"
  by (simp add: eval_parse)

lemma parseInt_NaN: "parseInt e v = NaN \<longleftrightarrow> \<not> starts_with_integer v"
proof -
  have "takeWhile is_digit u = [] \<longleftrightarrow> \<not> (u \<noteq> [] \<and> is_digit (hd u))" for u
    by (cases u) auto
  then show ?thesis unfolding parseInt_def starts_with_integer_def Let_def by simp
qed

lemma parseInt_numeric:
  assumes "is_numeric v"
  shows "parseInt e v \<noteq> NaN"
    and "\<bar>numeric_value v\<bar> \<le> 2 ^ 53 \<Longrightarrow> parseInt e v = Num (numeric_value v)"
proof -
  have "parseInt e v \<noteq> NaN \<and> (\<bar>numeric_value v\<bar> \<le> 2 ^ 53 \<longrightarrow> parseInt e v = Num (numeric_value v))"
  proof (cases "v \<noteq> [] \<and> (hd v = CHR ''-'' \<or> hd v = CHR ''+'')")
    case True
    then obtain c u where v: "v = c # u" and c: "c = CHR ''-'' \<or> c = CHR ''+''" by (cases v) auto
    have u: "u \<noteq> []" "list_all is_digit u" using assms v c by (auto simp: is_numeric_def)
    have tw: "takeWhile is_digit u = u" using u(2) by (simp add: list_all_iff)
    have dw: "dropWhile is_space (c # u) = c # u" using c by (auto simp: is_space_def)
    have le: "\<bar>numeric_value (c # u)\<bar> \<le> 2 ^ 53 \<longleftrightarrow> decimal u \<le> 2 ^ 53"
      using c by (auto simp: numeric_value_def; metis of_nat_le_iff of_nat_numeral of_nat_power)
    show ?thesis unfolding v le unfolding parseInt_def dw Let_def numeric_value_def using c u(1)
      by (auto simp: tw)
  next
    case False
    then have d: "list_all is_digit v" "v \<noteq> []" using assms by (auto simp: is_numeric_def Let_def)
    have nv: "numeric_value v = int (decimal v)" using False by (auto simp: numeric_value_def)
    have c: "is_digit (hd v)" using d by (cases v) auto
    have dw: "dropWhile is_space v = v" using d(2) is_digit_not_space[OF c] by (cases v) auto
    have tw: "takeWhile is_digit v = v" using d(1) by (simp add: list_all_iff)
    have le: "\<bar>numeric_value v\<bar> \<le> 2 ^ 53 \<longleftrightarrow> decimal v \<le> 2 ^ 53"
      unfolding nv by (simp; metis of_nat_le_iff of_nat_numeral of_nat_power)
    show ?thesis unfolding le nv unfolding parseInt_def dw Let_def
      using is_digit_not_sign[OF c] d(2) by (simp add: tw)
  qed
  then show "parseInt e v \<noteq> NaN"
    and "\<bar>numeric_value v\<bar> \<le> 2 ^ 53 \<Longrightarrow> parseInt e v = Num (numeric_value v)" by simp_all
qed

text \<open>
  C5, as amended. For a Number-typed option the captured value is, for a token
  \<open>--key=text\<close>, the text up to its next \<open>=\<close>, and for a token \<open>--key\<close> the next token
  when that is not empty and does not start with \<open>-\<close>. The parser stores
  \<open>parseInt(value, 10)\<close> and fails with the invalid-number error exactly when that is
  \<open>NaN\<close>, which is when no digit follows the leading white space and the optional sign.
  Text after the digits is ignored. A numeric string is never rejected, and it is stored
  as the integer it denotes when that integer is at most \<open>2^53\<close> in magnitude; beyond, a
  double rounds.
\<close>

theorem number_option:
  assumes "map_of options k = Some option" and "type option = T_number"
  shows "(takeWhile (\<lambda>c. c \<noteq> CHR ''='') t \<noteq> [] \<longrightarrow>
            parse_loop e cf False a ((''--'' @ k @ ''='' @ t) # rest) =
              (if parseInt e (takeWhile (\<lambda>c. c \<noteq> CHR ''='') t) = NaN
               then Inl (error cf (InvalidNumberError k))
               else parse_loop e cf False
                      (AList.update k (VNum (parseInt e (takeWhile (\<lambda>c. c \<noteq> CHR ''='') t))) a) rest)) \<and>
         (v \<noteq> [] \<and> \<not> prefix ''-'' v \<longrightarrow>
            parse_loop e cf False a ((''--'' @ k) # v # rest) =
              (if parseInt e v = NaN then Inl (error cf (InvalidNumberError k))
               else parse_loop e cf False (AList.update k (VNum (parseInt e v)) a) rest)) \<and>
         (parseInt e v = NaN \<longleftrightarrow> \<not> starts_with_integer v) \<and>
         (is_numeric v \<longrightarrow> parseInt e v \<noteq> NaN) \<and>
         (is_numeric v \<and> \<bar>numeric_value v\<bar> \<le> 2 ^ 53 \<longrightarrow> parseInt e v = Num (numeric_value v))"
proof -
  have k: "k \<noteq> ''password''" "\<not> path option" using options_number[OF assms(1,2)] by simp_all
  have st: "store e cf (Own option) k x a =
            (if parseInt e x = NaN then Inl (error cf (InvalidNumberError k))
             else Inr (AList.update k (VNum (parseInt e x)) a))" for x
    by (simp add: store_def option_type_def assms(2))
  have 1: "parse_loop e cf False a ((''--'' @ k @ ''='' @ t) # rest) =
              (if parseInt e (takeWhile (\<lambda>c. c \<noteq> CHR ''='') t) = NaN
               then Inl (error cf (InvalidNumberError k))
               else parse_loop e cf False
                      (AList.update k (VNum (parseInt e (takeWhile (\<lambda>c. c \<noteq> CHR ''='') t))) a) rest)"
    if "takeWhile (\<lambda>c. c \<noteq> CHR ''='') t \<noteq> []"
    unfolding parse_loop_option(2)[OF assms(1)] parse_option_inline[OF assms(1)]
    using assms(2) that k by (simp add: st)
  have 2: "parse_loop e cf False a ((''--'' @ k) # v # rest) =
              (if parseInt e v = NaN then Inl (error cf (InvalidNumberError k))
               else parse_loop e cf False (AList.update k (VNum (parseInt e v)) a) rest)"
    if "v \<noteq> []" "\<not> prefix ''-'' v"
  proof -
    have nv: "next_is_value (v # rest)" using that by (simp add: next_is_value_def)
    show ?thesis
      unfolding parse_loop_option(1)[OF assms(1)] parse_option_bare[OF assms(1)]
      using assms(2) k nv by (simp add: st)
  qed
  show ?thesis using 1 2 parseInt_NaN[of e v] parseInt_numeric[of v e] by blast
qed

theorem number_option_witness:
  "map_of options ''port'' = Some (mk T_number) \<and> type (mk T_number) = T_number \<and>
   \<not> is_numeric ''abc'' \<and>
   parse sample_sys [''--port=abc''] None = Inl (InvalidNumberError ''port'') \<and>
   is_numeric ''8080'' \<and> \<bar>numeric_value ''8080''\<bar> \<le> 2 ^ 53 \<and>
   parse sample_sys [''--port'', ''8080''] None = Inr [(''_'', VList []), (''port'', VNum (Num 8080))] \<and>
   parseInt sample_sys ''8080'' = Num (numeric_value ''8080'')"
proof -
  have 1: "map_of options ''port'' = Some (mk T_number)" by (simp add: options_def)
  have 2: "type (mk T_number) = T_number" by (simp add: mk_def)
  have c: "\<not> is_numeric ''abc''" "is_numeric ''8080''" "\<bar>numeric_value ''8080''\<bar> \<le> 2 ^ 53"
    by (simp_all add: is_numeric_def is_digit_def numeric_value_def decimal_def digit_val_def)
  have a: "parse_loop sample_sys None False [(''_'', VList [])] ((''--'' @ ''port'' @ ''='' @ ''abc'') # []) =
             Inl (InvalidNumberError ''port'')"
    using number_option[OF 1 2, of "''abc''" sample_sys None "[(''_'', VList [])]" "[]"]
    by (simp add: eval_num error_def)
  have b: "parse_loop sample_sys None False [(''_'', VList [])] ((''--'' @ ''port'') # ''8080'' # []) =
             Inr [(''_'', VList []), (''port'', VNum (Num 8080))]"
    using number_option[OF 1 2, of _ sample_sys None "[(''_'', VList [])]" "[]" "''8080''"]
    by (simp add: eval_num)
  have d: "parseInt sample_sys ''8080'' = Num (numeric_value ''8080'')"
    using number_option[OF 1 2, of _ sample_sys None "[(''_'', VList [])]" "[]" "''8080''"] c by blast
  show ?thesis using 1 2 a b c d by (simp add: parse_def)
qed

text \<open>
  C5 as stated fails: \<open>12abc\<close> is not numeric, and \<open>--port=12abc\<close> parses, to the port 12.
\<close>

theorem number_option_counterexample:
  "parse sample_sys [''--port=12abc''] None = Inr [(''_'', VList []), (''port'', VNum (Num 12))] \<and>
   \<not> is_numeric ''12abc''"
  by (simp add: eval_parse eval_num is_numeric_def)

section \<open>Properties of the config file\<close>









section \<open>Records of the parser\<close>












section \<open>Properties of instance detection\<close>




lemmas eval_instance =
  shouldOpenInExistingInstance_def readSocketPath_def readFile_def


section \<open>Boolean options\<close>











end
